theory Spec2Isabelle
  imports Complex_Main
begin

section \<open>Values shared with the physics library\<close>

text \<open>
  The sandbox draws what the physics library \<^verbatim>\<open>classic2d\<close> reports. Its numbers are
  JavaScript numbers; the batching code only stores and counts them, so they are kept
  abstract (the type variable \<open>'n\<close>). \<^verbatim>\<open>Vec2\<close> is a pair of numbers, a \<^verbatim>\<open>Color\<close> is
  indexed by component (\<^verbatim>\<open>color[j]\<close>), and \<^verbatim>\<open>COLOR_COMPONENTS\<close>, which the repository
  imports from the library, is a parameter (\<open>cc\<close>) of the functions that use it.
\<close>

datatype 'n vec2 = Vec2 (vec_x: 'n) (vec_y: 'n)

type_synonym 'n color = "nat \<Rightarrow> 'n"

text \<open>
  \<^verbatim>\<open>Mat4\<close> is the library's matrix class. The sandbox only builds matrices by the
  chain \<^verbatim>\<open>new Mat4().translate(x, y).rotate(a).scale(x, y, z)\<close> and hands them to WebGL, so a
  matrix is represented by the construction that produced it.
\<close>

datatype 'n mat4 =
    Mat4
  | Translate "'n mat4" 'n 'n
  | Rotate "'n mat4" 'n
  | Scale "'n mat4" 'n 'n 'n

section \<open>The WebGL and canvas calls of the debug-draw layer\<close>

text \<open>
  The batching classes talk to a \<^verbatim>\<open>WebGLRenderingContext\<close> and a 2D canvas context.
  Each object keeps the list of calls it has issued: the buffer uploads
  (\<^verbatim>\<open>bufferData\<close> of a whole typed array), the uniforms and the draw calls. Binding
  calls and attribute pointers carry no data of the batch and are not recorded.
\<close>

datatype draw_mode = LINES | POINTS

datatype attrib = aVertex | aColor

datatype 'n gl_call =
    UseProgram bool
  | BufferData attrib "'n list"
  | UniformProjectionMatrix
  | UniformModelViewMatrix "'n mat4"
  | DrawElements draw_mode nat nat

datatype 'n canvas_call =
    ClearRect
  | SetFillStyle string
  | SetFont 'n string
  | SetTextBaseline string
  | FillText string 'n 'n

section \<open>RenderLine\<close>

definition RenderLine_MAX_MATRICES :: nat where
  "RenderLine_MAX_MATRICES = 512"

definition RenderLine_MAX_VERTICES :: nat where
  "RenderLine_MAX_VERTICES = RenderLine_MAX_MATRICES * 2"

definition RenderLine_MAX_COLORS :: nat where
  "RenderLine_MAX_COLORS = RenderLine_MAX_MATRICES * 4"

text \<open>One element of \<^verbatim>\<open>matrices\<close>: \<^verbatim>\<open>{ matrix, offset, count }\<close>.\<close>

record 'n entry =
  e_matrix :: "'n mat4"
  e_offset :: nat
  e_count :: nat

text \<open>
  The fields of a \<^verbatim>\<open>RenderLine\<close> that the methods change, and the calls issued on
  the WebGL context after the constructor (which creates the buffers and the shader
  program and fills the index buffer with 0, 1, 2, ...). \<^verbatim>\<open>vertices\<close> and \<^verbatim>\<open>colors\<close> are
  \<^verbatim>\<open>Float32Array\<close>s: a write past the end is ignored, which is what \<open>xs[i := v]\<close> does.
  \<^verbatim>\<open>matrices\<close> is a JavaScript array written at \<^verbatim>\<open>matricesCount\<close>; a write past its
  length extends it, so it is a map from indices to entries, undefined where nothing
  was written. \<^verbatim>\<open>count\<close> counts numbers (two per vertex); it is even in every state
  the class reaches (\<open>line_inv\<close> below), so \<^verbatim>\<open>count / 2\<close> is \<open>count div 2\<close>.
\<close>

record 'n render_line =
  line_vertices :: "'n list"
  line_colors :: "'n list"
  line_count :: nat
  line_matrices :: "nat \<Rightarrow> 'n entry option"
  line_matricesCount :: nat
  line_gl :: "'n gl_call list"

definition new_RenderLine :: "('n::zero) render_line" where
  "new_RenderLine =
     \<lparr> line_vertices = replicate RenderLine_MAX_VERTICES 0,
       line_colors = replicate RenderLine_MAX_COLORS 0,
       line_count = 0,
       line_matrices = Map.empty,
       line_matricesCount = 0,
       line_gl = [] \<rparr>"

text \<open>
  The draw loop of \<^verbatim>\<open>flush\<close>: for each index below \<^verbatim>\<open>matricesCount\<close>, the model-view
  uniform and one \<^verbatim>\<open>drawElements(LINES, count, UNSIGNED_SHORT, offset * 2)\<close>. Reading
  \<^verbatim>\<open>matrix.matrix\<close> of an undefined element raises a TypeError: the result \<open>None\<close>.
\<close>

fun draw_entries :: "(nat \<Rightarrow> 'n entry option) \<Rightarrow> nat list \<Rightarrow> 'n gl_call list option" where
  "draw_entries ms [] = Some []"
| "draw_entries ms (i # is) =
     (case ms i of
        None \<Rightarrow> None
      | Some e \<Rightarrow>
          (case draw_entries ms is of
             None \<Rightarrow> None
           | Some cs \<Rightarrow>
               Some (UniformModelViewMatrix (e_matrix e)
                     # DrawElements LINES (e_count e) (e_offset e * 2) # cs)))"

definition line_flush :: "'n render_line \<Rightarrow> 'n render_line option" where
  "line_flush s =
     (if line_matricesCount s = 0 then Some s
      else
        (case draw_entries (line_matrices s) [0..<line_matricesCount s] of
           None \<Rightarrow> None
         | Some ds \<Rightarrow>
             Some (s\<lparr> line_gl := line_gl s
                          @ [UseProgram True,
                             BufferData aVertex (line_vertices s),
                             BufferData aColor (line_colors s),
                             UniformProjectionMatrix]
                          @ ds @ [UseProgram False],
                      line_count := 0,
                      line_matricesCount := 0 \<rparr>)))"

text \<open>\<^verbatim>\<open>this.matrices[this.matricesCount++] = { matrix, offset: lastVertices / 2, count: (this.count - lastVertices) / 2 }\<close>\<close>

definition line_push :: "'n mat4 \<Rightarrow> nat \<Rightarrow> 'n render_line \<Rightarrow> 'n render_line" where
  "line_push matrix lastVertices s =
     s\<lparr> line_matrices := (line_matrices s)
            (line_matricesCount s \<mapsto>
               \<lparr> e_matrix = matrix,
                 e_offset = lastVertices div 2,
                 e_count = (line_count s - lastVertices) div 2 \<rparr>),
        line_matricesCount := Suc (line_matricesCount s) \<rparr>"

text \<open>
  The two coordinate writes and the colour loop of one iteration:
  \<^verbatim>\<open>vertices[count++] = p.x; vertices[count++] = p.y;\<close> then
  \<^verbatim>\<open>colors[(count / 2 - 1) * COLOR_COMPONENTS + j] = color[j]\<close> for every component.
\<close>

definition write_colors :: "nat \<Rightarrow> nat \<Rightarrow> 'n color \<Rightarrow> 'n list \<Rightarrow> 'n list" where
  "write_colors cc off color cs = fold (\<lambda>j cs. cs[off + j := color j]) [0..<cc] cs"

definition line_write :: "nat \<Rightarrow> 'n vec2 \<Rightarrow> 'n color \<Rightarrow> 'n render_line \<Rightarrow> 'n render_line" where
  "line_write cc p color s =
     s\<lparr> line_vertices := (line_vertices s)[line_count s := vec_x p, Suc (line_count s) := vec_y p],
        line_count := line_count s + 2,
        line_colors := write_colors cc (((line_count s + 2) div 2 - 1) * cc) color (line_colors s) \<rparr>"

text \<open>
  The capacity check at the head of an iteration of \<^verbatim>\<open>addVertices\<close>: when the buffer
  is full, the entry of the points written so far by this call is recorded (unless this
  is the call's first point), the buffer is flushed and \<^verbatim>\<open>lastVertices\<close> restarts at
  the new \<^verbatim>\<open>count\<close>. The result is the new \<^verbatim>\<open>lastVertices\<close> and state.
\<close>

definition line_make_room ::
  "'n mat4 \<Rightarrow> nat \<Rightarrow> nat \<Rightarrow> 'n render_line \<Rightarrow> (nat \<times> 'n render_line) option" where
  "line_make_room matrix i lastVertices s =
     (if line_count s = RenderLine_MAX_VERTICES then
        (case line_flush (if i > 0 then line_push matrix lastVertices s else s) of
           None \<Rightarrow> None
         | Some s' \<Rightarrow> Some (line_count s', s'))
      else Some (lastVertices, s))"

text \<open>
  The loop of \<^verbatim>\<open>addVertices\<close> from index \<open>i\<close> on; the list holds the points
  \<^verbatim>\<open>ps[i], ps[i+1], ...\<close> still to be written.
\<close>

fun addVertices_loop ::
  "nat \<Rightarrow> 'n mat4 \<Rightarrow> 'n color \<Rightarrow> nat \<Rightarrow> 'n vec2 list \<Rightarrow> nat \<Rightarrow> 'n render_line
     \<Rightarrow> (nat \<times> 'n render_line) option" where
  "addVertices_loop cc matrix color i [] lastVertices s = Some (lastVertices, s)"
| "addVertices_loop cc matrix color i (p # ps) lastVertices s =
     (case line_make_room matrix i lastVertices s of
        None \<Rightarrow> None
      | Some (lastVertices', s') \<Rightarrow>
          addVertices_loop cc matrix color (Suc i) ps lastVertices' (line_write cc p color s'))"

definition addVertices ::
  "nat \<Rightarrow> 'n mat4 \<Rightarrow> 'n vec2 list \<Rightarrow> 'n color \<Rightarrow> 'n render_line \<Rightarrow> 'n render_line option" where
  "addVertices cc matrix ps color s =
     (case addVertices_loop cc matrix color 0 ps (line_count s) s of
        None \<Rightarrow> None
      | Some (lastVertices, s') \<Rightarrow> Some (line_push matrix lastVertices s'))"

section \<open>RenderPoint\<close>

definition RenderPoint_MAX_VERTICES :: nat where
  "RenderPoint_MAX_VERTICES = 512"

definition RenderPoint_MAX_COLORS :: nat where
  "RenderPoint_MAX_COLORS = RenderPoint_MAX_VERTICES * 2"

record 'n render_point =
  point_vertices :: "'n list"
  point_colors :: "'n list"
  point_count :: nat
  point_gl :: "'n gl_call list"

definition new_RenderPoint :: "('n::zero) render_point" where
  "new_RenderPoint =
     \<lparr> point_vertices = replicate RenderPoint_MAX_VERTICES 0,
       point_colors = replicate RenderPoint_MAX_COLORS 0,
       point_count = 0,
       point_gl = [] \<rparr>"

definition point_flush :: "'n render_point \<Rightarrow> 'n render_point" where
  "point_flush s =
     (if point_count s = 0 then s
      else s\<lparr> point_gl := point_gl s
                  @ [UseProgram True,
                     BufferData aVertex (point_vertices s),
                     BufferData aColor (point_colors s),
                     UniformProjectionMatrix,
                     DrawElements POINTS (point_count s div 2) 0,
                     UseProgram False],
              point_count := 0 \<rparr>)"

definition point_write :: "nat \<Rightarrow> 'n vec2 \<Rightarrow> 'n color \<Rightarrow> 'n render_point \<Rightarrow> 'n render_point" where
  "point_write cc p color s =
     s\<lparr> point_vertices := (point_vertices s)[point_count s := vec_x p, Suc (point_count s) := vec_y p],
        point_count := point_count s + 2,
        point_colors := write_colors cc (((point_count s + 2) div 2 - 1) * cc) color (point_colors s) \<rparr>"

definition vertex :: "nat \<Rightarrow> 'n vec2 \<Rightarrow> 'n color \<Rightarrow> 'n render_point \<Rightarrow> 'n render_point" where
  "vertex cc p color s =
     point_write cc p color
       (if point_count s = RenderPoint_MAX_VERTICES then point_flush s else s)"

section \<open>RenderText\<close>

record 'n text_item =
  t_text :: string
  t_x :: 'n
  t_y :: 'n

record 'n render_text =
  text_size :: 'n
  text_yOffset :: 'n
  text_texts :: "'n text_item list"
  text_gl2d :: "'n canvas_call list"

definition RenderText_DEFAULT_FONT :: string where
  "RenderText_DEFAULT_FONT = ''Courier New''"

definition WHITE :: string where
  "WHITE = ''#FFFFFF''"

text \<open>The constructor, with the size it is given or defaults to.\<close>

definition new_RenderText :: "'n \<Rightarrow> ('n::zero) render_text" where
  "new_RenderText sz =
     \<lparr> text_size = sz, text_yOffset = 0, text_texts = [], text_gl2d = [] \<rparr>"

definition fill :: "string \<Rightarrow> 'n \<Rightarrow> 'n \<Rightarrow> 'n render_text \<Rightarrow> 'n render_text" where
  "fill text x y s = s\<lparr> text_texts := text_texts s @ [\<lparr> t_text = text, t_x = x, t_y = y \<rparr>] \<rparr>"

definition print :: "string \<Rightarrow> ('n::{zero,plus}) render_text \<Rightarrow> 'n render_text" where
  "print text s =
     (let s' = fill text 0 (text_yOffset s) s
      in s'\<lparr> text_yOffset := text_yOffset s' + text_size s' \<rparr>)"

definition text_flush :: "('n::zero) render_text \<Rightarrow> 'n render_text" where
  "text_flush s =
     s\<lparr> text_gl2d := text_gl2d s
            @ [ClearRect, SetFillStyle WHITE, SetFont (text_size s) RenderText_DEFAULT_FONT,
               SetTextBaseline ''top'']
            @ map (\<lambda>t. FillText (t_text t) (t_x t) (t_y t)) (text_texts s),
        text_texts := [],
        text_yOffset := 0 \<rparr>"

section \<open>DebugDraw\<close>


record 'n debug_draw =
  dd_lines :: "'n render_line"
  dd_text :: "'n render_text"
  dd_points :: "'n render_point"











definition drawPoint :: "nat \<Rightarrow> 'n vec2 \<Rightarrow> 'n color \<Rightarrow> 'n debug_draw \<Rightarrow> 'n debug_draw" where
  "drawPoint cc position color dd = dd\<lparr> dd_points := vertex cc position color (dd_points dd) \<rparr>"

definition drawText :: "string \<Rightarrow> 'n \<Rightarrow> 'n \<Rightarrow> 'n debug_draw \<Rightarrow> 'n debug_draw" where
  "drawText text x y dd = dd\<lparr> dd_text := fill text x y (dd_text dd) \<rparr>"

definition printText :: "string \<Rightarrow> ('n::{zero,plus}) debug_draw \<Rightarrow> 'n debug_draw" where
  "printText text dd = dd\<lparr> dd_text := print text (dd_text dd) \<rparr>"

text \<open>\<^verbatim>\<open>DebugDraw.flush\<close>: the lines, then the text, then the points.\<close>

definition flush :: "('n::zero) debug_draw \<Rightarrow> 'n debug_draw option" where
  "flush dd =
     (case line_flush (dd_lines dd) of
        None \<Rightarrow> None
      | Some l \<Rightarrow>
          Some \<lparr> dd_lines = l, dd_text = text_flush (dd_text dd),
                 dd_points = point_flush (dd_points dd) \<rparr>)"

section \<open>Sequences of calls on the batching buffers\<close>

text \<open>
  The calls other code can make on a \<^verbatim>\<open>RenderLine\<close> and on a \<^verbatim>\<open>RenderPoint\<close>, and
  running a sequence of them. A call that raises ends the run with \<open>None\<close>.
\<close>

datatype 'n line_op =
    AddVertices "'n mat4" "'n vec2 list" "'n color"
  | LineFlush

fun line_step :: "nat \<Rightarrow> 'n line_op \<Rightarrow> 'n render_line \<Rightarrow> 'n render_line option" where
  "line_step cc (AddVertices matrix ps color) s = addVertices cc matrix ps color s"
| "line_step cc LineFlush s = line_flush s"

fun line_run :: "nat \<Rightarrow> 'n line_op list \<Rightarrow> 'n render_line \<Rightarrow> 'n render_line option" where
  "line_run cc [] s = Some s"
| "line_run cc (c # cs) s =
     (case line_step cc c s of None \<Rightarrow> None | Some s' \<Rightarrow> line_run cc cs s')"

datatype 'n point_op =
    Vertex "'n vec2" "'n color"
  | PointFlush

fun point_step :: "nat \<Rightarrow> 'n point_op \<Rightarrow> 'n render_point \<Rightarrow> 'n render_point" where
  "point_step cc (Vertex p color) s = vertex cc p color s"
| "point_step cc PointFlush s = point_flush s"

definition point_run :: "nat \<Rightarrow> 'n point_op list \<Rightarrow> 'n render_point \<Rightarrow> 'n render_point" where
  "point_run cc cs s = fold (point_step cc) cs s"

text \<open>The number of vertices a sequence of calls hands to the buffer.\<close>

fun line_submitted :: "'n line_op list \<Rightarrow> nat" where
  "line_submitted [] = 0"
| "line_submitted (AddVertices matrix ps color # cs) = length ps + line_submitted cs"
| "line_submitted (LineFlush # cs) = line_submitted cs"

text \<open>
  The number of indices the \<^verbatim>\<open>drawElements\<close> calls of one mode in a call list draw:
  with the identity index buffer, the number of vertices drawn.
\<close>

fun drawn :: "draw_mode \<Rightarrow> 'n gl_call list \<Rightarrow> nat" where
  "drawn m [] = 0"
| "drawn m (DrawElements m' n off # cs) = (if m' = m then n else 0) + drawn m cs"
| "drawn m (c # cs) = drawn m cs"

text \<open>The elements of \<^verbatim>\<open>matrices\<close> below \<^verbatim>\<open>matricesCount\<close>: the recorded entries.\<close>

definition line_entries :: "'n render_line \<Rightarrow> 'n entry option list" where
  "line_entries s = map (line_matrices s) [0..<line_matricesCount s]"

text \<open>
  \<open>tiles k es\<close>: every element of \<open>es\<close> is defined, the first range starts at vertex
  \<open>k\<close> and each next one where the one before ends; the result is the end of the last.
\<close>

fun tiles :: "nat \<Rightarrow> 'n entry option list \<Rightarrow> nat option" where
  "tiles k [] = Some k"
| "tiles k (None # es) = None"
| "tiles k (Some e # es) = (if e_offset e = k then tiles (k + e_count e) es else None)"

text \<open>
  The invariant of a \<^verbatim>\<open>RenderLine\<close> between calls, and the one of the loop of
  \<^verbatim>\<open>addVertices\<close>, where the vertices from \<^verbatim>\<open>lastVertices\<close> on have no entry yet.
\<close>

definition line_inv :: "'n render_line \<Rightarrow> bool" where
  "line_inv s \<longleftrightarrow>
     even (line_count s) \<and> line_count s \<le> RenderLine_MAX_VERTICES \<and>
     tiles 0 (line_entries s) = Some (line_count s div 2)"

definition loop_inv :: "nat \<Rightarrow> 'n render_line \<Rightarrow> bool" where
  "loop_inv lastVertices s \<longleftrightarrow>
     even (line_count s) \<and> line_count s \<le> RenderLine_MAX_VERTICES \<and>
     even lastVertices \<and> lastVertices \<le> line_count s \<and>
     tiles 0 (line_entries s) = Some (lastVertices div 2)"

text \<open>Vertices drawn so far plus vertices waiting in the buffer.\<close>

definition line_total :: "'n render_line \<Rightarrow> nat" where
  "line_total s = drawn LINES (line_gl s) + line_count s div 2"

definition point_total :: "'n render_point \<Rightarrow> nat" where
  "point_total s = drawn POINTS (point_gl s) + point_count s div 2"

text \<open>The invariant of a \<^verbatim>\<open>RenderPoint\<close>.\<close>

definition point_inv :: "'n render_point \<Rightarrow> bool" where
  "point_inv s \<longleftrightarrow> even (point_count s) \<and> point_count s \<le> RenderPoint_MAX_VERTICES"



section \<open>Shader programs\<close>

text \<open>
  \<^verbatim>\<open>loadShader\<close> and \<^verbatim>\<open>initShaderProgram\<close> drive the WebGL implementation, which
  decides whether a source compiles and whether two shaders link. What it answers is a
  parameter (\<open>webgl\<close>); a shader object remembers its type and source, and \<open>None\<close> is
  \<^verbatim>\<open>null\<close>. The state (\<open>shading\<close>) holds the next object handle, the calls made so
  far and the lines written with \<^verbatim>\<open>console.error\<close>.
\<close>

datatype shader_type = VERTEX_SHADER | FRAGMENT_SHADER

record shader =
  sh_handle :: nat
  sh_type :: shader_type
  sh_source :: string

record webgl =
  compile_status :: "shader_type \<Rightarrow> string \<Rightarrow> bool"
  shader_info_log :: "shader_type \<Rightarrow> string \<Rightarrow> string"
  link_status :: "shader option \<Rightarrow> shader option \<Rightarrow> bool"
  program_info_log :: "shader option \<Rightarrow> shader option \<Rightarrow> string"

datatype shader_call =
    CreateShader shader_type nat
  | ShaderSource nat string
  | CompileShader nat
  | DeleteShader nat
  | CreateProgram nat
  | AttachShader nat "shader option"
  | LinkProgram nat

record shading =
  next_handle :: nat
  shader_calls :: "shader_call list"
  console :: "string list"

definition loadShader :: "webgl \<Rightarrow> shader_type \<Rightarrow> string \<Rightarrow> shading \<Rightarrow> shader option \<times> shading" where
  "loadShader gl type source g =
     (let shader = \<lparr> sh_handle = next_handle g, sh_type = type, sh_source = source \<rparr>;
          g1 = g\<lparr> next_handle := Suc (next_handle g),
                  shader_calls := shader_calls g
                    @ [CreateShader type (sh_handle shader),
                       ShaderSource (sh_handle shader) source,
                       CompileShader (sh_handle shader)] \<rparr>
      in if \<not> compile_status gl type source then
           (None,
            g1\<lparr> console := console g1
                   @ [''An error occurred compiling the shaders: '' @ shader_info_log gl type source],
                shader_calls := shader_calls g1 @ [DeleteShader (sh_handle shader)] \<rparr>)
         else (Some shader, g1))"

definition initShaderProgram :: "webgl \<Rightarrow> string \<Rightarrow> string \<Rightarrow> shading \<Rightarrow> nat option \<times> shading" where
  "initShaderProgram gl vsSource fsSource g =
     (let (vertexShader, g1) = loadShader gl VERTEX_SHADER vsSource g;
          (fragmentShader, g2) = loadShader gl FRAGMENT_SHADER fsSource g1;
          shaderProgram = next_handle g2;
          g3 = g2\<lparr> next_handle := Suc (next_handle g2),
                   shader_calls := shader_calls g2
                     @ [CreateProgram shaderProgram,
                        AttachShader shaderProgram vertexShader,
                        AttachShader shaderProgram fragmentShader,
                        LinkProgram shaderProgram] \<rparr>
      in if \<not> link_status gl vertexShader fragmentShader then
           (None,
            g3\<lparr> console := console g3
                   @ [''Unable to initialize the shader program: ''
                      @ program_info_log gl vertexShader fragmentShader] \<rparr>)
         else (Some shaderProgram, g3))"

section \<open>Test\<close>

text \<open>
  A \<^verbatim>\<open>Contact\<close> of the physics library, as far as \<^verbatim>\<open>Test\<close> reads it: the two
  bodies, compared by identity (\<^verbatim>\<open>===\<close>), and the point \<^verbatim>\<open>getPoint()\<close> returns.
\<close>

record ('n, 'b) contact =
  bodyA :: 'b
  bodyB :: 'b
  contact_point :: "'n vec2"

text \<open>
  The calls a \<^verbatim>\<open>Test\<close> makes on the world, on its \<^verbatim>\<open>DebugDraw\<close> (\<^verbatim>\<open>drawPoint\<close>
  always with \<^verbatim>\<open>COLORS.CONTACT\<close>) and on the contact listener it forwards to.
\<close>

datatype ('n, 'b) test_call =
    WorldSetDebugDraw
  | WorldStep 'n
  | WorldDrawDebugData
  | DebugDrawPrintText string
  | DebugDrawFlush
  | DebugDrawPoint "'n vec2"
  | ListenerBeginContact "('n, 'b) contact"
  | ListenerEndContact "('n, 'b) contact"
  | ListenerPreSolve "('n, 'b) contact"

text \<open>
  \<^verbatim>\<open>MovingAverage\<close> and the formatting of numbers are not part of the claims: the state
  of the moving average is of an arbitrary type \<open>'a\<close>, and \<^verbatim>\<open>get\<close>,
  \<^verbatim>\<open>Math.floor(1000 / t).toString()\<close> and \<^verbatim>\<open>t.toFixed(3).toString()\<close> are parameters.
\<close>

record ('n, 'a) helpers =
  movingAverage_get :: "'n \<Rightarrow> 'a \<Rightarrow> 'n \<times> 'a"
  floor_1000_div :: "'n \<Rightarrow> string"
  toFixed_3 :: "'n \<Rightarrow> string"

text \<open>
  The fields of a \<^verbatim>\<open>Test\<close>; \<open>contactListener\<close> says whether a listener is set, and
  \<open>test_calls\<close> lists the calls made so far.
\<close>

record ('n, 'b, 'a) test =
  contacts :: "('n, 'b) contact list"
  frameTimeMovingAverage :: 'a
  isPause :: bool
  shouldMakeStep :: bool
  contactListener :: bool
  test_calls :: "('n, 'b) test_call list"

definition clearContacts :: "('n, 'b, 'a) test \<Rightarrow> ('n, 'b, 'a) test" where
  "clearContacts t = t\<lparr> contacts := [] \<rparr>"

definition new_Test :: "'a \<Rightarrow> bool \<Rightarrow> ('n, 'b, 'a) test" where
  "new_Test average listener =
     clearContacts
       \<lparr> contacts = [], frameTimeMovingAverage = average, isPause = False,
         shouldMakeStep = False, contactListener = listener,
         test_calls = [WorldSetDebugDraw] \<rparr>"

fun hasContact_loop :: "('n, 'b) contact list \<Rightarrow> ('n, 'b) contact \<Rightarrow> bool" where
  "hasContact_loop [] contact = False"
| "hasContact_loop (c # cs) contact =
     (if bodyA c = bodyA contact \<and> bodyB c = bodyB contact then True
      else hasContact_loop cs contact)"

definition hasContact :: "('n, 'b) contact \<Rightarrow> ('n, 'b, 'a) test \<Rightarrow> bool" where
  "hasContact contact t = hasContact_loop (contacts t) contact"

definition test_call :: "('n, 'b) test_call \<Rightarrow> ('n, 'b, 'a) test \<Rightarrow> ('n, 'b, 'a) test" where
  "test_call c t = t\<lparr> test_calls := test_calls t @ [c] \<rparr>"

definition beginContact :: "('n, 'b) contact \<Rightarrow> ('n, 'b, 'a) test \<Rightarrow> ('n, 'b, 'a) test" where
  "beginContact contact t =
     (let t1 = (if \<not> hasContact contact t then t\<lparr> contacts := contacts t @ [contact] \<rparr> else t)
      in if contactListener t1 then test_call (ListenerBeginContact contact) t1 else t1)"

definition endContact :: "('n, 'b) contact \<Rightarrow> ('n, 'b, 'a) test \<Rightarrow> ('n, 'b, 'a) test" where
  "endContact contact t =
     (if contactListener t then test_call (ListenerEndContact contact) t else t)"

definition preSolve :: "('n, 'b) contact \<Rightarrow> ('n, 'b, 'a) test \<Rightarrow> ('n, 'b, 'a) test" where
  "preSolve contact t =
     (if contactListener t then test_call (ListenerPreSolve contact) t else t)"

definition drawContacts :: "('n, 'b, 'a) test \<Rightarrow> ('n, 'b, 'a) test" where
  "drawContacts t = fold (\<lambda>contact. test_call (DebugDrawPoint (contact_point contact))) (contacts t) t"

definition drawHelp :: "('n, 'a) helpers \<Rightarrow> 'n \<Rightarrow> ('n, 'b, 'a) test \<Rightarrow> ('n, 'b, 'a) test" where
  "drawHelp h time t =
     (let (averageFrameTime, average) = movingAverage_get h time (frameTimeMovingAverage t);
          help = ''[R] - reset; [P] - pause; [O] - step'';
          fps = ''FPS: '' @ floor_1000_div h averageFrameTime;
          frame = ''Frame time: '' @ toFixed_3 h averageFrameTime @ '' ms'';
          t1 = test_call (DebugDrawPrintText frame)
                 (test_call (DebugDrawPrintText fps)
                    (test_call (DebugDrawPrintText help)
                       (t\<lparr> frameTimeMovingAverage := average \<rparr>)))
      in if isPause t1 then test_call (DebugDrawPrintText ''[PAUSE]'') t1 else t1)"

definition draw :: "('n, 'a) helpers \<Rightarrow> 'n \<Rightarrow> ('n, 'b, 'a) test \<Rightarrow> ('n, 'b, 'a) test" where
  "draw h time t =
     clearContacts
       (drawContacts
          (test_call DebugDrawFlush
             (drawHelp h time
                (test_call WorldDrawDebugData t))))"

definition makeStep :: "('n, 'b, 'a) test \<Rightarrow> ('n, 'b, 'a) test" where
  "makeStep t = t\<lparr> shouldMakeStep := True \<rparr>"

text \<open>\<^verbatim>\<open>pause(isPause = !this.isPause)\<close>: \<open>None\<close> is the call without an argument.\<close>

definition pause :: "bool option \<Rightarrow> ('n, 'b, 'a) test \<Rightarrow> ('n, 'b, 'a) test" where
  "pause arg t = t\<lparr> isPause := (case arg of None \<Rightarrow> \<not> isPause t | Some b \<Rightarrow> b) \<rparr>"

definition setContactListener :: "('n, 'b, 'a) test \<Rightarrow> ('n, 'b, 'a) test" where
  "setContactListener t = t\<lparr> contactListener := True \<rparr>"

definition step :: "'n \<Rightarrow> ('n, 'b, 'a) test \<Rightarrow> ('n, 'b, 'a) test" where
  "step time t =
     (if \<not> isPause t \<or> shouldMakeStep t
      then (test_call (WorldStep time) t)\<lparr> shouldMakeStep := False \<rparr>
      else t)"

text \<open>The public methods of a \<^verbatim>\<open>Test\<close> as calls, and a sequence of them.\<close>

datatype ('n, 'b) test_op =
    BeginContact "('n, 'b) contact"
  | EndContact "('n, 'b) contact"
  | PreSolve "('n, 'b) contact"
  | Draw 'n
  | MakeStep
  | Pause "bool option"
  | SetContactListener
  | Step 'n

fun test_apply :: "('n, 'a) helpers \<Rightarrow> ('n, 'b) test_op \<Rightarrow> ('n, 'b, 'a) test \<Rightarrow> ('n, 'b, 'a) test" where
  "test_apply h (BeginContact c) t = beginContact c t"
| "test_apply h (EndContact c) t = endContact c t"
| "test_apply h (PreSolve c) t = preSolve c t"
| "test_apply h (Draw time) t = draw h time t"
| "test_apply h MakeStep t = makeStep t"
| "test_apply h (Pause arg) t = pause arg t"
| "test_apply h SetContactListener t = setContactListener t"
| "test_apply h (Step time) t = step time t"

definition test_run :: "('n, 'a) helpers \<Rightarrow> ('n, 'b) test_op list \<Rightarrow> ('n, 'b, 'a) test \<Rightarrow> ('n, 'b, 'a) test" where
  "test_run h ops t = fold (test_apply h) ops t"

text \<open>The number of \<^verbatim>\<open>world.step\<close> calls made so far.\<close>

definition world_steps :: "('n, 'b, 'a) test \<Rightarrow> nat" where
  "world_steps t = length (filter (\<lambda>c. case c of WorldStep _ \<Rightarrow> True | _ \<Rightarrow> False) (test_calls t))"

text \<open>
  Read off the history of calls: whether \<^verbatim>\<open>makeStep()\<close> has been called since the last
  world step. \<open>b\<close> is the answer for the history before \<open>ops\<close>.
\<close>

fun is_MakeStep :: "('n, 'b) test_op \<Rightarrow> bool" where
  "is_MakeStep MakeStep = True"
| "is_MakeStep _ = False"

fun makeStep_since_step ::
  "('n, 'a) helpers \<Rightarrow> ('n, 'b) test_op list \<Rightarrow> ('n, 'b, 'a) test \<Rightarrow> bool \<Rightarrow> bool" where
  "makeStep_since_step h [] t b = b"
| "makeStep_since_step h (c # cs) t b =
     makeStep_since_step h cs (test_apply h c t)
       (if world_steps (test_apply h c t) \<noteq> world_steps t then False
        else if is_MakeStep c then True
        else b)"

text \<open>Calls that leave a paused \<^verbatim>\<open>Test\<close> paused: all but \<^verbatim>\<open>pause()\<close> and \<^verbatim>\<open>pause(false)\<close>.\<close>

fun keeps_pause :: "('n, 'b) test_op \<Rightarrow> bool" where
  "keeps_pause (Pause None) = False"
| "keeps_pause (Pause (Some b)) = b"
| "keeps_pause _ = True"

text \<open>The pair of bodies a contact is compared by.\<close>

definition pair_of :: "('n, 'b) contact \<Rightarrow> 'b \<times> 'b" where
  "pair_of c = (bodyA c, bodyB c)"

section \<open>The Test of a Sandbox\<close>

text \<open>
  The repository holds two copies of \<^verbatim>\<open>Test\<close> and of \<^verbatim>\<open>SandboxWorld\<close>. The ones
  above (\<^verbatim>\<open>src/src/test.ts\<close>, \<^verbatim>\<open>src/src/world.ts\<close>) are constructed with a
  \<^verbatim>\<open>DebugDraw\<close>. \<^verbatim>\<open>index.ts\<close> constructs its world with \<^verbatim>\<open>new SandboxWorld()\<close>
  and hands a \<^verbatim>\<open>Draw\<close> over later, with \<^verbatim>\<open>setDebugDraw\<close>: that is the other copy,
  whose \<^verbatim>\<open>Test\<close> has an optional \<^verbatim>\<open>debugDraw\<close>, draws only when it has one, and
  draws the contacts before the flush. Its other methods are the same. Whether the
  \<^verbatim>\<open>Draw\<close> has been set is the first argument of the drawing functions here; the
  sandbox below keeps it.
\<close>

definition new_Test_without_draw :: "'a \<Rightarrow> ('n, 'b, 'a) test" where
  "new_Test_without_draw average =
     clearContacts
       \<lparr> contacts = [], frameTimeMovingAverage = average, isPause = False,
         shouldMakeStep = False, contactListener = False, test_calls = [] \<rparr>"

definition drawContacts_optional :: "bool \<Rightarrow> ('n, 'b, 'a) test \<Rightarrow> ('n, 'b, 'a) test" where
  "drawContacts_optional debugDraw t = (if \<not> debugDraw then t else drawContacts t)"

definition drawHelp_optional ::
  "bool \<Rightarrow> ('n, 'a) helpers \<Rightarrow> 'n \<Rightarrow> ('n, 'b, 'a) test \<Rightarrow> ('n, 'b, 'a) test" where
  "drawHelp_optional debugDraw h time t = (if \<not> debugDraw then t else drawHelp h time t)"

definition draw_optional ::
  "bool \<Rightarrow> ('n, 'a) helpers \<Rightarrow> 'n \<Rightarrow> ('n, 'b, 'a) test \<Rightarrow> ('n, 'b, 'a) test" where
  "draw_optional debugDraw h time t =
     clearContacts
       ((if debugDraw then test_call DebugDrawFlush else (\<lambda>t. t))
          (drawContacts_optional debugDraw
             (drawHelp_optional debugDraw h time
                (test_call WorldDrawDebugData t))))"

section \<open>Sandbox\<close>

text \<open>
  The calls a \<^verbatim>\<open>Sandbox\<close> makes, in the order it makes them: on the browser, on its
  WebGL context (in \<^verbatim>\<open>clearFrame\<close>), on the world and on the \<^verbatim>\<open>Test\<close> of the world.
\<close>

datatype 'n sandbox_call =
    SetCanvasSize_webgl 'n 'n
  | SetCanvasSize_2d 'n 'n
  | WorldClear
  | World_setDebugDraw
  | GL_viewport
  | GL_clearColor
  | GL_clearDepth
  | GL_enable_DEPTH_TEST
  | GL_depthFunc_LEQUAL
  | GL_clear
  | RequestAnimationFrame
  | Test_pause "bool option"
  | Test_makeStep
  | Test_step 'n
  | Test_draw 'n

text \<open>
  The fields of a \<^verbatim>\<open>Sandbox\<close> that its methods change: the camera's zoom, width and
  height, the \<^verbatim>\<open>Test\<close> of its world and whether that has been given a \<^verbatim>\<open>Draw\<close>,
  \<^verbatim>\<open>past\<close>, \<^verbatim>\<open>running\<close>, and the calls made so far.
\<close>

record ('n, 'b, 'a) sandbox =
  camera_zoom :: 'n
  camera_width :: 'n
  camera_height :: 'n
  test :: "('n, 'b, 'a) test"
  debugDraw :: bool
  past :: 'n
  running :: bool
  sandbox_calls :: "'n sandbox_call list"

text \<open>
  The optional \<^verbatim>\<open>Actions\<close> of the user. An action is code of the user's: it may call
  the sandbox and the world, so it is a function on the state of the sandbox. The key
  of the keyboard event is what \<^verbatim>\<open>keyDown\<close> gets.
\<close>

record ('n, 'b, 'a) actions =
  action_init :: "(('n, 'b, 'a) sandbox \<Rightarrow> ('n, 'b, 'a) sandbox) option"
  action_reset :: "(('n, 'b, 'a) sandbox \<Rightarrow> ('n, 'b, 'a) sandbox) option"
  action_keyDown :: "(string \<Rightarrow> ('n, 'b, 'a) sandbox \<Rightarrow> ('n, 'b, 'a) sandbox) option"
  action_preStep :: "('n \<Rightarrow> ('n, 'b, 'a) sandbox \<Rightarrow> ('n, 'b, 'a) sandbox) option"
  action_postStep :: "(('n, 'b, 'a) sandbox \<Rightarrow> ('n, 'b, 'a) sandbox) option"

text \<open>\<^verbatim>\<open>if (this.actions && this.actions.x) { this.actions.x(...) }\<close>\<close>

definition call_action ::
  "('n, 'b, 'a) actions option \<Rightarrow>
   (('n, 'b, 'a) actions \<Rightarrow> (('n, 'b, 'a) sandbox \<Rightarrow> ('n, 'b, 'a) sandbox) option) \<Rightarrow>
   ('n, 'b, 'a) sandbox \<Rightarrow> ('n, 'b, 'a) sandbox" where
  "call_action acts which s =
     (case acts of
        None \<Rightarrow> s
      | Some a \<Rightarrow> (case which a of None \<Rightarrow> s | Some f \<Rightarrow> f s))"

definition call_keyDown ::
  "('n, 'b, 'a) actions option \<Rightarrow> string \<Rightarrow> ('n, 'b, 'a) sandbox \<Rightarrow> ('n, 'b, 'a) sandbox" where
  "call_keyDown acts key s = call_action acts (\<lambda>a. map_option (\<lambda>f. f key) (action_keyDown a)) s"

definition call_preStep ::
  "('n, 'b, 'a) actions option \<Rightarrow> 'n \<Rightarrow> ('n, 'b, 'a) sandbox \<Rightarrow> ('n, 'b, 'a) sandbox" where
  "call_preStep acts now s = call_action acts (\<lambda>a. map_option (\<lambda>f. f now) (action_preStep a)) s"

definition call_postStep ::
  "('n, 'b, 'a) actions option \<Rightarrow> ('n, 'b, 'a) sandbox \<Rightarrow> ('n, 'b, 'a) sandbox" where
  "call_postStep acts s = call_action acts action_postStep s"

definition sandbox_call :: "'n sandbox_call \<Rightarrow> ('n, 'b, 'a) sandbox \<Rightarrow> ('n, 'b, 'a) sandbox" where
  "sandbox_call c s = s\<lparr> sandbox_calls := sandbox_calls s @ [c] \<rparr>"

definition on_test ::
  "(('n, 'b, 'a) test \<Rightarrow> ('n, 'b, 'a) test) \<Rightarrow> ('n, 'b, 'a) sandbox \<Rightarrow> ('n, 'b, 'a) sandbox" where
  "on_test f s = s\<lparr> test := f (test s) \<rparr>"

text \<open>A call of a method of the \<^verbatim>\<open>Test\<close>: the call is listed, and the method runs.\<close>

definition call_test ::
  "'n sandbox_call \<Rightarrow> (('n, 'b, 'a) test \<Rightarrow> ('n, 'b, 'a) test) \<Rightarrow> ('n, 'b, 'a) sandbox
     \<Rightarrow> ('n, 'b, 'a) sandbox" where
  "call_test c f s = on_test f (sandbox_call c s)"

text \<open>
  The constructor: \<^verbatim>\<open>new SandboxWorld()\<close> builds the \<^verbatim>\<open>Test\<close> without a \<^verbatim>\<open>Draw\<close>
  and without a contact listener.
\<close>

definition new_Sandbox ::
  "('n, 'b, 'a) actions option \<Rightarrow> 'a \<Rightarrow> 'n \<Rightarrow> 'n \<Rightarrow> ('n::zero, 'b, 'a) sandbox" where
  "new_Sandbox acts average width height =
     call_action acts action_init
       \<lparr> camera_zoom = 0, camera_width = width, camera_height = height,
         test = new_Test_without_draw average, debugDraw = False, past = 0, running = False,
         sandbox_calls = [SetCanvasSize_webgl width height, SetCanvasSize_2d width height] \<rparr>"

text \<open>
  \<^verbatim>\<open>this.world.setDebugDraw(draw)\<close>: the world of a sandbox passes the \<^verbatim>\<open>Draw\<close> on to
  its \<^verbatim>\<open>Test\<close>.
\<close>

definition setDebugDraw :: "('n, 'b, 'a) sandbox \<Rightarrow> ('n, 'b, 'a) sandbox" where
  "setDebugDraw s = (sandbox_call World_setDebugDraw s)\<lparr> debugDraw := True \<rparr>"

definition run :: "('n, 'b, 'a) sandbox \<Rightarrow> ('n, 'b, 'a) sandbox" where
  "run s = sandbox_call RequestAnimationFrame (s\<lparr> running := True \<rparr>)"

definition reset :: "('n, 'b, 'a) actions option \<Rightarrow> ('n, 'b, 'a) sandbox \<Rightarrow> ('n, 'b, 'a) sandbox" where
  "reset acts s = call_action acts action_reset (sandbox_call WorldClear s)"

definition stop :: "('n, 'b, 'a) sandbox \<Rightarrow> ('n, 'b, 'a) sandbox" where
  "stop s = s\<lparr> running := False \<rparr>"

definition zoom :: "'n \<Rightarrow> ('n, 'b, 'a) sandbox \<Rightarrow> ('n, 'b, 'a) sandbox" where
  "zoom z s = s\<lparr> camera_zoom := z \<rparr>"

definition clearFrame :: "('n, 'b, 'a) sandbox \<Rightarrow> ('n, 'b, 'a) sandbox" where
  "clearFrame s =
     s\<lparr> sandbox_calls := sandbox_calls s
          @ [GL_viewport, GL_clearColor, GL_clearDepth, GL_enable_DEPTH_TEST,
             GL_depthFunc_LEQUAL, GL_clear] \<rparr>"

definition handleResize :: "'n \<Rightarrow> 'n \<Rightarrow> ('n, 'b, 'a) sandbox \<Rightarrow> ('n, 'b, 'a) sandbox" where
  "handleResize width height s =
     sandbox_call (SetCanvasSize_2d width height)
       (sandbox_call (SetCanvasSize_webgl width height)
          (s\<lparr> camera_width := width, camera_height := height \<rparr>))"

definition handleKeyDown ::
  "('n, 'b, 'a) actions option \<Rightarrow> string \<Rightarrow> ('n, 'b, 'a) sandbox \<Rightarrow> ('n, 'b, 'a) sandbox" where
  "handleKeyDown acts key s =
     (if key = ''r'' then reset acts s
      else if key = ''p'' then call_test (Test_pause None) (pause None) s
      else if key = ''o'' then
        call_test Test_makeStep makeStep
          (call_test (Test_pause (Some True)) (pause (Some True)) s)
      else call_keyDown acts key s)"

definition keyDown ::
  "('n, 'b, 'a) actions option \<Rightarrow> string \<Rightarrow> ('n, 'b, 'a) sandbox \<Rightarrow> ('n, 'b, 'a) sandbox" where
  "keyDown acts key s = handleKeyDown acts key s"

definition resize :: "'n \<Rightarrow> 'n \<Rightarrow> ('n, 'b, 'a) sandbox \<Rightarrow> ('n, 'b, 'a) sandbox" where
  "resize width height s = handleResize width height s"

text \<open>
  The \<^verbatim>\<open>render\<close> callback, statement by statement: the \<^verbatim>\<open>running\<close> check,
  \<^verbatim>\<open>preStep(now)\<close>, \<^verbatim>\<open>time = now - this.past\<close>, \<^verbatim>\<open>this.past = now\<close>,
  \<^verbatim>\<open>test.step(time)\<close>, \<^verbatim>\<open>postStep()\<close>, \<^verbatim>\<open>clearFrame()\<close>, \<^verbatim>\<open>test.draw(time)\<close>,
  \<^verbatim>\<open>requestAnimationFrame(this.render)\<close>.
\<close>

definition render ::
  "('n, 'a) helpers \<Rightarrow> ('n, 'b, 'a) actions option \<Rightarrow> 'n \<Rightarrow> ('n::minus, 'b, 'a) sandbox
     \<Rightarrow> ('n, 'b, 'a) sandbox" where
  "render h acts now s =
     (if \<not> running s then s
      else
        (let s1 = call_preStep acts now s;
             time = now - past s1;
             s2 = s1\<lparr> past := now \<rparr>;
             s3 = call_test (Test_step time) (step time) s2;
             s4 = call_postStep acts s3;
             s5 = clearFrame s4;
             s6 = call_test (Test_draw time) (draw_optional (debugDraw s5) h time) s5
         in sandbox_call RequestAnimationFrame s6))"

text \<open>The public methods of a \<^verbatim>\<open>Sandbox\<close> and its animation-frame callback as calls.\<close>

datatype 'n sandbox_op =
    Run
  | Stop
  | Reset
  | Zoom 'n
  | Resize 'n 'n
  | KeyDown string
  | SetDebugDraw
  | Render 'n

fun sandbox_apply ::
  "('n, 'a) helpers \<Rightarrow> ('n, 'b, 'a) actions option \<Rightarrow> 'n sandbox_op \<Rightarrow> ('n::minus, 'b, 'a) sandbox
     \<Rightarrow> ('n, 'b, 'a) sandbox" where
  "sandbox_apply h acts Run s = run s"
| "sandbox_apply h acts Stop s = stop s"
| "sandbox_apply h acts Reset s = reset acts s"
| "sandbox_apply h acts (Zoom z) s = zoom z s"
| "sandbox_apply h acts (Resize width height) s = resize width height s"
| "sandbox_apply h acts (KeyDown key) s = keyDown acts key s"
| "sandbox_apply h acts SetDebugDraw s = setDebugDraw s"
| "sandbox_apply h acts (Render now) s = render h acts now s"

definition sandbox_run ::
  "('n, 'a) helpers \<Rightarrow> ('n, 'b, 'a) actions option \<Rightarrow> 'n sandbox_op list \<Rightarrow> ('n::minus, 'b, 'a) sandbox
     \<Rightarrow> ('n, 'b, 'a) sandbox" where
  "sandbox_run h acts ops s = fold (sandbox_apply h acts) ops s"

fun is_Run :: "'n sandbox_op \<Rightarrow> bool" where
  "is_Run Run = True"
| "is_Run _ = False"

text \<open>An action that does not call \<^verbatim>\<open>run()\<close>: a stopped sandbox is still stopped after it.\<close>

definition stays_stopped :: "(('n, 'b, 'a) sandbox \<Rightarrow> ('n, 'b, 'a) sandbox) \<Rightarrow> bool" where
  "stays_stopped f \<longleftrightarrow> (\<forall>s. \<not> running s \<longrightarrow> \<not> running (f s))"

definition actions_stay_stopped :: "('n, 'b, 'a) actions option \<Rightarrow> bool" where
  "actions_stay_stopped acts \<longleftrightarrow>
     stays_stopped (call_action acts action_reset) \<and>
     (\<forall>key. stays_stopped (call_keyDown acts key))"

section \<open>Example values\<close>

text \<open>Concrete values on which the theorems below are tried.\<close>

definition example_helpers :: "(int, unit) helpers" where
  "example_helpers =
     \<lparr> movingAverage_get = (\<lambda>time average. (time, average)),
       floor_1000_div = (\<lambda>time. ''60''),
       toFixed_3 = (\<lambda>time. ''16.000'') \<rparr>"



definition example_gl :: webgl where
  "example_gl =
     \<lparr> compile_status = (\<lambda>type source. source \<noteq> ''bad''),
       shader_info_log = (\<lambda>type source. ''syntax error''),
       link_status = (\<lambda>vertexShader fragmentShader. fragmentShader \<noteq> None),
       program_info_log = (\<lambda>vertexShader fragmentShader. ''missing shader'') \<rparr>"

definition example_shading :: shading where
  "example_shading = \<lparr> next_handle = 0, shader_calls = [], console = [] \<rparr>"

definition example_test :: "(int, nat, unit) test" where
  "example_test = new_Test () False"

definition example_contact :: "nat \<Rightarrow> nat \<Rightarrow> int \<Rightarrow> (int, nat) contact" where
  "example_contact a b x = \<lparr> bodyA = a, bodyB = b, contact_point = Vec2 x x \<rparr>"

section \<open>The invariants of the batching buffers\<close>

lemma tiles_append:
  "tiles k (es @ fs) = (case tiles k es of None \<Rightarrow> None | Some k' \<Rightarrow> tiles k' fs)"
  by (induction k es rule: tiles.induct) auto

lemma line_entries_push:
  "line_entries (line_push matrix lv s) =
     line_entries s @ [Some \<lparr> e_matrix = matrix, e_offset = lv div 2,
                              e_count = (line_count s - lv) div 2 \<rparr>]"
  by (simp add: line_entries_def line_push_def)

lemma line_count_push [simp]: "line_count (line_push matrix lv s) = line_count s"
  by (simp add: line_push_def)

lemma line_gl_push [simp]: "line_gl (line_push matrix lv s) = line_gl s"
  by (simp add: line_push_def)

lemma push_inv: "loop_inv lv s \<Longrightarrow> line_inv (line_push matrix lv s)"
  unfolding loop_inv_def line_inv_def
  by (auto simp: line_entries_push tiles_append)

lemma tiles_defined:
  "tiles k (map ms is) = Some k' \<Longrightarrow>
     \<exists>ds. draw_entries ms is = Some ds \<and> drawn LINES ds + k = k'"
proof (induction "is" arbitrary: k)
  case Nil
  then show ?case by simp
next
  case (Cons i "is")
  then obtain e where e: "ms i = Some e" by (cases "ms i") auto
  with Cons.prems have off: "e_offset e = k" and rest: "tiles (k + e_count e) (map ms is) = Some k'"
    by (auto split: if_splits)
  from Cons.IH [OF rest] obtain ds where "draw_entries ms is = Some ds" "drawn LINES ds + (k + e_count e) = k'"
    by blast
  with e show ?case by simp
qed

lemma MAX_VERTICES_1024: "RenderLine_MAX_VERTICES = 1024"
  by (simp add: RenderLine_MAX_VERTICES_def RenderLine_MAX_MATRICES_def)

lemma drawn_append: "drawn m (a @ b) = drawn m a + drawn m b"
  by (induction m a rule: drawn.induct) auto

lemma line_inv_init: "line_inv new_RenderLine"
  by (simp add: line_inv_def new_RenderLine_def line_entries_def RenderLine_MAX_VERTICES_def)

lemma flush_inv:
  assumes "line_inv s"
  shows "\<exists>s'. line_flush s = Some s' \<and> line_inv s' \<and> line_count s' = 0 \<and>
               line_matricesCount s' = 0 \<and> line_total s' = line_total s"
proof (cases "line_matricesCount s = 0")
  case True
  with assms have "line_count s div 2 = 0" "even (line_count s)"
    by (auto simp: line_inv_def line_entries_def)
  then have "line_count s = 0" by presburger
  with True assms show ?thesis by (simp add: line_flush_def)
next
  case False
  from assms have "tiles 0 (map (line_matrices s) [0..<line_matricesCount s]) = Some (line_count s div 2)"
    by (simp add: line_inv_def line_entries_def)
  from tiles_defined [OF this] obtain ds where
    ds: "draw_entries (line_matrices s) [0..<line_matricesCount s] = Some ds"
        "drawn LINES ds = line_count s div 2"
    by auto
  with False show ?thesis
    by (simp add: line_flush_def line_inv_def line_entries_def line_total_def drawn_append)
qed

lemma write_inv:
  assumes "loop_inv lv s" "line_count s \<noteq> RenderLine_MAX_VERTICES"
  shows "loop_inv lv (line_write cc p color s) \<and>
         line_total (line_write cc p color s) = Suc (line_total s)"
proof -
  from assms have "even (line_count s)" "line_count s \<le> 1024" "line_count s \<noteq> 1024"
    by (simp_all add: loop_inv_def MAX_VERTICES_1024)
  then have "line_count s + 2 \<le> 1024" by presburger
  then have "line_count s + 2 \<le> RenderLine_MAX_VERTICES" by (simp add: MAX_VERTICES_1024)
  with assms(1) show ?thesis
    by (simp add: loop_inv_def line_write_def line_entries_def line_total_def)
qed

lemma make_room_inv:
  assumes "loop_inv lv s" "i = 0 \<longrightarrow> lv = line_count s"
  shows "\<exists>lv' s'. line_make_room matrix i lv s = Some (lv', s') \<and> loop_inv lv' s' \<and>
           line_count s' \<noteq> RenderLine_MAX_VERTICES \<and> line_total s' = line_total s"
proof (cases "line_count s = RenderLine_MAX_VERTICES")
  case False
  with assms show ?thesis by (simp add: line_make_room_def)
next
  case True
  let ?t = "if i > 0 then line_push matrix lv s else s"
  have "line_inv ?t"
    using assms push_inv [of lv s matrix] by (auto simp: loop_inv_def line_inv_def)
  from flush_inv [OF this] obtain s' where
    s': "line_flush ?t = Some s'" "line_inv s'" "line_count s' = 0" "line_total s' = line_total ?t"
    by blast
  have "line_total ?t = line_total s" by (simp add: line_total_def)
  with True s' show ?thesis
    by (simp add: line_make_room_def loop_inv_def line_inv_def RenderLine_MAX_VERTICES_def
        RenderLine_MAX_MATRICES_def)
qed

lemma loop_inv_run:
  assumes "loop_inv lv s" "i = 0 \<longrightarrow> lv = line_count s"
  shows "\<exists>lv' s'. addVertices_loop cc matrix color i ps lv s = Some (lv', s') \<and>
           loop_inv lv' s' \<and> line_total s' = line_total s + length ps"
  using assms
proof (induction ps arbitrary: i lv s)
  case Nil
  then show ?case by simp
next
  case (Cons p ps)
  from make_room_inv [OF Cons.prems] obtain lv1 s1 where
    r: "line_make_room matrix i lv s = Some (lv1, s1)" "loop_inv lv1 s1"
       "line_count s1 \<noteq> RenderLine_MAX_VERTICES" "line_total s1 = line_total s"
    by blast
  from write_inv [OF r(2) r(3)] have
    w: "loop_inv lv1 (line_write cc p color s1)"
       "line_total (line_write cc p color s1) = Suc (line_total s1)"
    by auto
  from Cons.IH [OF w(1), of "Suc i"] obtain lv' s' where
    "addVertices_loop cc matrix color (Suc i) ps lv1 (line_write cc p color s1) = Some (lv', s')"
    "loop_inv lv' s'" "line_total s' = line_total (line_write cc p color s1) + length ps"
    by auto
  with r w show ?case by simp
qed

lemma addVertices_inv:
  assumes "line_inv s"
  shows "\<exists>s'. addVertices cc matrix ps color s = Some s' \<and> line_inv s' \<and>
           line_total s' = line_total s + length ps"
proof -
  from assms have "loop_inv (line_count s) s" by (simp add: loop_inv_def line_inv_def)
  from loop_inv_run [OF this, of 0 cc matrix color ps] obtain lv' s' where
    "addVertices_loop cc matrix color 0 ps (line_count s) s = Some (lv', s')"
    "loop_inv lv' s'" "line_total s' = line_total s + length ps"
    by auto
  then show ?thesis
    using push_inv [of lv' s' matrix] by (simp add: addVertices_def line_total_def)
qed

lemma point_flush_count: "point_count (point_flush s) = 0"
  by (simp add: point_flush_def)

lemma MAX_POINT_512: "RenderPoint_MAX_VERTICES = 512"
  by (simp add: RenderPoint_MAX_VERTICES_def)

lemma point_flush_inv: "point_inv s \<Longrightarrow> point_inv (point_flush s) \<and> point_total (point_flush s) = point_total s"
  by (simp add: point_inv_def point_flush_def point_total_def drawn_append)

lemma point_write_count: "point_count (point_write cc p color s) = point_count s + 2"
  by (simp add: point_write_def)

lemma point_write_gl: "point_gl (point_write cc p color s) = point_gl s"
  by (simp add: point_write_def)

lemma vertex_inv:
  assumes "point_inv s"
  shows "point_inv (vertex cc p color s) \<and> point_total (vertex cc p color s) = Suc (point_total s)"
proof (cases "point_count s = RenderPoint_MAX_VERTICES")
  case True
  then show ?thesis
    by (simp add: vertex_def point_inv_def point_flush_def point_write_def point_total_def
        drawn_append MAX_POINT_512)
next
  case False
  with assms have "even (point_count s)" "point_count s \<le> 512" "point_count s \<noteq> 512"
    by (simp_all add: point_inv_def MAX_POINT_512)
  then have "point_count s + 2 \<le> 512" by presburger
  with False assms show ?thesis
    by (simp add: vertex_def point_inv_def point_write_def point_total_def MAX_POINT_512)
qed

lemma point_step_inv: "point_inv s \<Longrightarrow> point_inv (point_step cc c s)"
  by (cases c) (simp_all add: vertex_inv point_flush_inv)

lemma point_run_inv: "point_inv s \<Longrightarrow> point_inv (point_run cc cs s)"
  unfolding point_run_def by (induction cs arbitrary: s) (simp_all add: point_step_inv)

lemma point_inv_init: "point_inv new_RenderPoint"
  by (simp add: point_inv_def new_RenderPoint_def)

lemma line_step_inv:
  assumes "line_inv s"
  shows "\<exists>s'. line_step cc c s = Some s' \<and> line_inv s' \<and>
           line_total s' = line_total s + line_submitted [c]"
proof (cases c)
  case (AddVertices matrix ps color)
  with addVertices_inv [OF assms, of cc matrix ps color] show ?thesis by simp
next
  case LineFlush
  with flush_inv [OF assms] show ?thesis by auto
qed

lemma line_submitted_Cons: "line_submitted (c # cs) = line_submitted [c] + line_submitted cs"
  by (cases c) simp_all

lemma line_run_inv:
  assumes "line_inv s"
  shows "\<exists>s'. line_run cc cs s = Some s' \<and> line_inv s' \<and>
           line_total s' = line_total s + line_submitted cs"
  using assms
proof (induction cs arbitrary: s)
  case Nil
  then show ?case by simp
next
  case (Cons c cs)
  from line_step_inv [OF Cons.prems, of cc c] obtain s1 where
    s1: "line_step cc c s = Some s1" "line_inv s1" "line_total s1 = line_total s + line_submitted [c]"
    by blast
  from Cons.IH [OF s1(2)] obtain s' where
    "line_run cc cs s1 = Some s'" "line_inv s'" "line_total s' = line_total s1 + line_submitted cs"
    by blast
  with s1 show ?case using line_submitted_Cons [of c cs] by simp
qed

lemma loop_snoc:
  "addVertices_loop cc matrix color i (ps @ [p]) lv s =
     (case addVertices_loop cc matrix color i ps lv s of
        None \<Rightarrow> None
      | Some (lv', s') \<Rightarrow>
          (case line_make_room matrix (i + length ps) lv' s' of
             None \<Rightarrow> None
           | Some (lv1, s1) \<Rightarrow> Some (lv1, line_write cc p color s1)))"
  by (induction ps arbitrary: i lv s) (auto split: option.splits)

lemma tiles_Some:
  "tiles k xs = Some k' \<Longrightarrow>
     \<exists>es. xs = map Some es \<and> k + sum_list (map e_count es) = k' \<and>
          (\<forall>i<length es. e_offset (es ! i) = k + sum_list (map e_count (take i es)))"
proof (induction k xs rule: tiles.induct)
  case (1 k)
  then show ?case by simp
next
  case (2 k es)
  then show ?case by simp
next
  case (3 k e xs)
  then have off: "e_offset e = k" and rest: "tiles (k + e_count e) xs = Some k'"
    by (auto split: if_splits)
  from 3(1) [OF off rest] obtain es where
    es: "xs = map Some es" "k + e_count e + sum_list (map e_count es) = k'"
        "\<forall>i<length es. e_offset (es ! i) = k + e_count e + sum_list (map e_count (take i es))"
    by blast
  have "\<forall>i<length (e # es). e_offset ((e # es) ! i) = k + sum_list (map e_count (take i (e # es)))"
  proof (intro allI impI)
    fix i assume "i < length (e # es)"
    then show "e_offset ((e # es) ! i) = k + sum_list (map e_count (take i (e # es)))"
      using off es(3) by (cases i) auto
  qed
  with es show ?case
    by (intro exI [of _ "e # es"]) (simp add: add.assoc)
qed

lemma sum_take_le: "sum_list (map f (take i xs)) \<le> (sum_list (map f xs) :: nat)"
proof -
  have "sum_list (map f xs) = sum_list (map f (take i xs)) + sum_list (map f (drop i xs))"
    by (metis append_take_drop_id map_append sum_list_append)
  then show ?thesis by simp
qed

lemma sum_take_Suc:
  "i < length xs \<Longrightarrow> sum_list (map f (take (Suc i) xs)) = sum_list (map f (take i xs)) + (f (xs ! i) :: nat)"
  by (simp add: take_Suc_conv_app_nth)

lemma loop_no_flush:
  "line_count s + 2 * length ps \<le> RenderLine_MAX_VERTICES \<Longrightarrow>
     \<exists>s'. addVertices_loop cc matrix color i ps lv s = Some (lv, s') \<and>
          line_count s' = line_count s + 2 * length ps \<and>
          line_matrices s' = line_matrices s \<and>
          line_matricesCount s' = line_matricesCount s \<and>
          line_gl s' = line_gl s"
proof (induction ps arbitrary: i s)
  case Nil
  then show ?case by simp
next
  case (Cons p ps)
  then have ne: "line_count s \<noteq> RenderLine_MAX_VERTICES" by simp
  let ?w = "line_write cc p color s"
  have "line_count ?w + 2 * length ps \<le> RenderLine_MAX_VERTICES"
    using Cons.prems by (simp add: line_write_def)
  from Cons.IH [OF this, of "Suc i"] obtain s' where
    "addVertices_loop cc matrix color (Suc i) ps lv ?w = Some (lv, s')"
    "line_count s' = line_count ?w + 2 * length ps"
    "line_matrices s' = line_matrices ?w"
    "line_matricesCount s' = line_matricesCount ?w"
    "line_gl s' = line_gl ?w"
    by blast
  with ne show ?case by (simp add: line_make_room_def line_write_def)
qed

lemma addVertices_no_flush:
  assumes "line_count s + 2 * length ps \<le> RenderLine_MAX_VERTICES"
  shows "\<exists>s'. addVertices cc matrix ps color s = Some s' \<and>
          line_count s' = line_count s + 2 * length ps \<and>
          line_entries s' = line_entries s
             @ [Some \<lparr> e_matrix = matrix, e_offset = line_count s div 2,
                        e_count = length ps \<rparr>] \<and>
          line_matricesCount s' = Suc (line_matricesCount s) \<and>
          line_gl s' = line_gl s"
proof -
  from loop_no_flush [OF assms, of cc matrix color 0 "line_count s"] obtain s' where
    s': "addVertices_loop cc matrix color 0 ps (line_count s) s = Some (line_count s, s')"
        "line_count s' = line_count s + 2 * length ps"
        "line_matrices s' = line_matrices s"
        "line_matricesCount s' = line_matricesCount s"
        "line_gl s' = line_gl s"
    by blast
  have "line_entries s' = line_entries s" using s'(3,4) by (simp add: line_entries_def)
  with s' show ?thesis
    by (simp add: addVertices_def line_entries_push) (simp add: line_push_def)
qed


section \<open>The points of a circle\<close>











section \<open>The contact list and the step flag of a Test\<close>

lemma hasContact_loop_iff:
  "hasContact_loop cs c \<longleftrightarrow> pair_of c \<in> set (map pair_of cs)"
  by (induction cs) (auto simp: pair_of_def)

lemma pair_in_iff:
  "pair_of c \<in> set (map pair_of cs) \<longleftrightarrow> (\<exists>d \<in> set cs. bodyA d = bodyA c \<and> bodyB d = bodyB c)"
  by (induction cs) (auto simp: pair_of_def)

lemma contacts_test_call [simp]: "contacts (test_call c t) = contacts t"
  by (simp add: test_call_def)

lemma test_calls_test_call [simp]: "test_calls (test_call c t) = test_calls t @ [c]"
  by (simp add: test_call_def)

lemma beginContact_contacts:
  "contacts (beginContact c t) =
     (if pair_of c \<in> set (map pair_of (contacts t)) then contacts t else contacts t @ [c])"
  by (simp add: beginContact_def hasContact_def hasContact_loop_iff Let_def)

lemma fold_test_call:
  "fold (\<lambda>c. test_call (f c)) cs t = t\<lparr> test_calls := test_calls t @ map f cs \<rparr>"
  by (induction cs arbitrary: t) (simp_all add: test_call_def)

lemma drawContacts_eq:
  "drawContacts t =
     t\<lparr> test_calls := test_calls t @ map (\<lambda>c. DebugDrawPoint (contact_point c)) (contacts t) \<rparr>"
  by (simp add: drawContacts_def fold_test_call)

lemma contacts_drawHelp [simp]: "contacts (drawHelp h time t) = contacts t"
  by (simp add: drawHelp_def Let_def split: prod.splits)

lemma draw_contacts: "contacts (draw h time t) = []"
  by (simp add: draw_def clearContacts_def)

lemma draw_calls:
  "test_calls (draw h time t) =
     test_calls (drawHelp h time (test_call WorldDrawDebugData t))
       @ DebugDrawFlush # map (\<lambda>c. DebugDrawPoint (contact_point c)) (contacts t)"
  by (simp add: draw_def clearContacts_def drawContacts_eq)

lemma distinct_apply:
  "distinct (map pair_of (contacts t)) \<Longrightarrow> distinct (map pair_of (contacts (test_apply h c t)))"
  by (cases c)
     (simp_all add: beginContact_contacts endContact_def preSolve_def draw_contacts makeStep_def
        pause_def setContactListener_def step_def)

lemma distinct_run:
  "distinct (map pair_of (contacts t)) \<Longrightarrow> distinct (map pair_of (contacts (test_run h cs t)))"
  unfolding test_run_def by (induction cs arbitrary: t) (simp_all add: distinct_apply)

lemma world_steps_call:
  "world_steps (test_call c t) = world_steps t + (case c of WorldStep _ \<Rightarrow> 1 | _ \<Rightarrow> 0)"
  by (cases c) (simp_all add: world_steps_def test_call_def)

lemma world_steps_upd [simp]:
  "world_steps (t\<lparr> contacts := cs \<rparr>) = world_steps t"
  "world_steps (t\<lparr> isPause := b \<rparr>) = world_steps t"
  "world_steps (t\<lparr> shouldMakeStep := b \<rparr>) = world_steps t"
  "world_steps (t\<lparr> contactListener := b \<rparr>) = world_steps t"
  "world_steps (t\<lparr> frameTimeMovingAverage := a \<rparr>) = world_steps t"
  by (simp_all add: world_steps_def)

lemma flags_call [simp]:
  "isPause (test_call c t) = isPause t"
  "shouldMakeStep (test_call c t) = shouldMakeStep t"
  "contactListener (test_call c t) = contactListener t"
  by (simp_all add: test_call_def)

lemma drawHelp_frame:
  "world_steps (drawHelp h time t) = world_steps t \<and>
   isPause (drawHelp h time t) = isPause t \<and>
   shouldMakeStep (drawHelp h time t) = shouldMakeStep t"
  by (simp add: drawHelp_def Let_def world_steps_call split: prod.splits)

lemma drawContacts_frame:
  "world_steps (drawContacts t) = world_steps t \<and>
   isPause (drawContacts t) = isPause t \<and>
   shouldMakeStep (drawContacts t) = shouldMakeStep t"
  by (simp add: drawContacts_eq world_steps_def filter_empty_conv)

lemma draw_frame:
  "world_steps (draw h time t) = world_steps t \<and>
   isPause (draw h time t) = isPause t \<and>
   shouldMakeStep (draw h time t) = shouldMakeStep t"
  by (simp add: draw_def clearContacts_def drawContacts_frame drawHelp_frame world_steps_call)

lemma contact_frame:
  "world_steps (beginContact c t) = world_steps t \<and>
   isPause (beginContact c t) = isPause t \<and>
   shouldMakeStep (beginContact c t) = shouldMakeStep t"
  "world_steps (endContact c t) = world_steps t \<and>
   isPause (endContact c t) = isPause t \<and>
   shouldMakeStep (endContact c t) = shouldMakeStep t"
  "world_steps (preSolve c t) = world_steps t \<and>
   isPause (preSolve c t) = isPause t \<and>
   shouldMakeStep (preSolve c t) = shouldMakeStep t"
  by (simp_all add: beginContact_def endContact_def preSolve_def Let_def world_steps_call)

lemma step_paused: "isPause t \<Longrightarrow> \<not> shouldMakeStep t \<Longrightarrow> step time t = t"
  by (simp add: step_def)

lemma step_taken:
  "\<not> isPause t \<or> shouldMakeStep t \<Longrightarrow>
     step time t = (test_call (WorldStep time) t)\<lparr> shouldMakeStep := False \<rparr> \<and>
     test_calls (step time t) = test_calls t @ [WorldStep time] \<and>
     world_steps (step time t) = Suc (world_steps t) \<and>
     \<not> shouldMakeStep (step time t) \<and> isPause (step time t) = isPause t"
  by (auto simp: step_def world_steps_call)

lemma step_counts:
  "\<not> isPause t \<or> shouldMakeStep t \<Longrightarrow> world_steps (step time t) = Suc (world_steps t)"
  by (auto simp: step_def world_steps_call)

lemma apply_flag:
  "shouldMakeStep (test_apply h c t) =
     (if world_steps (test_apply h c t) \<noteq> world_steps t then False
      else if is_MakeStep c then True
      else shouldMakeStep t)"
proof (cases c)
  case (Step time)
  then show ?thesis
    using step_paused [of t time] step_taken [of t time] by (cases "\<not> isPause t \<or> shouldMakeStep t") auto
qed (simp_all add: contact_frame draw_frame makeStep_def pause_def setContactListener_def)

lemma flag_history:
  "shouldMakeStep (test_run h cs t) = makeStep_since_step h cs t (shouldMakeStep t)"
  unfolding test_run_def
proof (induction cs arbitrary: t)
  case Nil
  then show ?case by simp
next
  case (Cons c cs)
  show ?case using Cons.IH [of "test_apply h c t"] apply_flag [of h c t] by simp
qed

lemma apply_paused:
  assumes "isPause t" "keeps_pause c"
  shows "isPause (test_apply h c t) \<and>
         world_steps (test_apply h c t) + (if shouldMakeStep (test_apply h c t) then 1 else 0)
           \<le> world_steps t + (if shouldMakeStep t then 1 else 0) + (if is_MakeStep c then 1 else 0)"
proof (cases c)
  case (Step time)
  then show ?thesis
    using assms step_paused [of t time] step_taken [of t time] by (cases "shouldMakeStep t") auto
next
  case (Pause arg)
  with assms show ?thesis by (cases arg) (simp_all add: pause_def)
qed (use assms in \<open>simp_all add: contact_frame draw_frame makeStep_def setContactListener_def\<close>)

lemma run_paused:
  assumes "isPause t" "list_all keeps_pause cs"
  shows "isPause (test_run h cs t) \<and>
         world_steps (test_run h cs t) + (if shouldMakeStep (test_run h cs t) then 1 else 0)
           \<le> world_steps t + (if shouldMakeStep t then 1 else 0) + length (filter is_MakeStep cs)"
  using assms unfolding test_run_def
proof (induction cs arbitrary: t)
  case Nil
  then show ?case by simp
next
  case (Cons c cs)
  from Cons.prems have k: "keeps_pause c" "list_all keeps_pause cs" by simp_all
  from apply_paused [OF Cons.prems(1) k(1), of h] have
    a: "isPause (test_apply h c t)"
       "world_steps (test_apply h c t) + (if shouldMakeStep (test_apply h c t) then 1 else 0)
           \<le> world_steps t + (if shouldMakeStep t then 1 else 0) + (if is_MakeStep c then 1 else 0)"
    by simp_all
  from Cons.IH [OF a(1) k(2)] a(2) show ?case by (simp split: if_splits)
qed

section \<open>Shader programs: what the functions return\<close>

lemma loadShader_eq:
  "loadShader gl type source g =
     (let shader = \<lparr> sh_handle = next_handle g, sh_type = type, sh_source = source \<rparr>;
          created = [CreateShader type (next_handle g), ShaderSource (next_handle g) source,
                     CompileShader (next_handle g)]
      in if compile_status gl type source
         then (Some shader,
               g\<lparr> next_handle := Suc (next_handle g),
                   shader_calls := shader_calls g @ created \<rparr>)
         else (None,
               g\<lparr> next_handle := Suc (next_handle g),
                   shader_calls := shader_calls g @ created @ [DeleteShader (next_handle g)],
                   console := console g
                     @ [''An error occurred compiling the shaders: ''
                        @ shader_info_log gl type source] \<rparr>))"
  by (simp add: loadShader_def Let_def)

lemma loadShader_null:
  "fst (loadShader gl type source g) = None \<longleftrightarrow> \<not> compile_status gl type source"
  by (simp add: loadShader_def Let_def)

lemma initShaderProgram_eq:
  "initShaderProgram gl vsSource fsSource g =
     (let (vertexShader, g1) = loadShader gl VERTEX_SHADER vsSource g;
          (fragmentShader, g2) = loadShader gl FRAGMENT_SHADER fsSource g1;
          linked = [CreateProgram (next_handle g2), AttachShader (next_handle g2) vertexShader,
                    AttachShader (next_handle g2) fragmentShader, LinkProgram (next_handle g2)]
      in if link_status gl vertexShader fragmentShader
         then (Some (next_handle g2),
               g2\<lparr> next_handle := Suc (next_handle g2),
                    shader_calls := shader_calls g2 @ linked \<rparr>)
         else (None,
               g2\<lparr> next_handle := Suc (next_handle g2),
                    shader_calls := shader_calls g2 @ linked,
                    console := console g2
                      @ [''Unable to initialize the shader program: ''
                         @ program_info_log gl vertexShader fragmentShader] \<rparr>))"
proof -
  obtain v g1 where a: "loadShader gl VERTEX_SHADER vsSource g = (v, g1)" by fastforce
  obtain f g2 where b: "loadShader gl FRAGMENT_SHADER fsSource g1 = (f, g2)" by fastforce
  show ?thesis
    by (simp add: initShaderProgram_def a b Let_def)
qed

lemma initShaderProgram_null:
  "(let (vertexShader, g1) = loadShader gl VERTEX_SHADER vsSource g;
        (fragmentShader, g2) = loadShader gl FRAGMENT_SHADER fsSource g1
    in fst (initShaderProgram gl vsSource fsSource g) = None
         \<longleftrightarrow> \<not> link_status gl vertexShader fragmentShader)"
proof -
  obtain v g1 where a: "loadShader gl VERTEX_SHADER vsSource g = (v, g1)" by fastforce
  obtain f g2 where b: "loadShader gl FRAGMENT_SHADER fsSource g1 = (f, g2)" by fastforce
  show ?thesis
    by (simp add: initShaderProgram_def a b Let_def)
qed

section \<open>The render callback\<close>

lemma running_sandbox_call [simp]: "running (sandbox_call c s) = running s"
  by (simp add: sandbox_call_def)

lemma running_on_test [simp]: "running (on_test f s) = running s"
  by (simp add: on_test_def)

lemma running_call_test [simp]: "running (call_test c f s) = running s"
  by (simp add: call_test_def)

lemma render_stopped: "\<not> running s \<Longrightarrow> render h acts now s = s"
  by (simp add: render_def)

lemma apply_stopped:
  assumes "\<not> running s" "\<not> is_Run c" "actions_stay_stopped acts"
  shows "\<not> running (sandbox_apply h acts c s)"
proof (cases c)
  case Reset
  from assms(3) have "stays_stopped (call_action acts action_reset)"
    by (simp add: actions_stay_stopped_def)
  with assms(1) Reset show ?thesis by (simp add: reset_def stays_stopped_def)
next
  case (KeyDown key)
  from assms(3) have k: "stays_stopped (call_action acts action_reset)"
    "stays_stopped (call_keyDown acts key)"
    by (simp_all add: actions_stay_stopped_def)
  with assms(1) KeyDown show ?thesis
    by (simp add: keyDown_def handleKeyDown_def reset_def stays_stopped_def)
qed (use assms in \<open>simp_all add: stop_def zoom_def resize_def handleResize_def setDebugDraw_def
      render_stopped\<close>)

lemma run_stopped:
  assumes "\<not> running s" "list_all (\<lambda>c. \<not> is_Run c) cs" "actions_stay_stopped acts"
  shows "\<not> running (sandbox_run h acts cs s)"
  using assms unfolding sandbox_run_def
proof (induction cs arbitrary: s)
  case Nil
  then show ?case by simp
next
  case (Cons c cs)
  from Cons.prems have "\<not> running (sandbox_apply h acts c s)"
    by (simp add: apply_stopped)
  with Cons show ?case by simp
qed

section \<open>The claims\<close>

text \<open>
  Claim C1. The buffered coordinate count never exceeds the capacity, and a full buffer
  is flushed before the next vertex is written. For a \<^verbatim>\<open>RenderLine\<close>: after any
  sequence of calls (\<open>s\<close>) and any number of iterations of a further \<^verbatim>\<open>addVertices\<close>
  call (the points \<open>ps\<close> written, state \<open>s'\<close>), \<^verbatim>\<open>count\<close> is at most
  \<^verbatim>\<open>MAX_VERTICES\<close> = 1024; the next point \<open>p\<close> is written into the state \<open>s1\<close> the
  capacity check leaves, where two more numbers fit; when the buffer was full, \<open>s1\<close> is
  flushed (both counts 0, and the 512 buffered vertices went into draw calls), and
  otherwise nothing was uploaded (\<open>s1\<close> is \<open>s'\<close>). For a \<^verbatim>\<open>RenderPoint\<close> with
  \<^verbatim>\<open>MAX_VERTICES\<close> = 512 the same holds of \<^verbatim>\<open>vertex\<close>: the write goes into \<open>t1\<close>,
  the flushed state when the buffer was full (its 256 vertices drawn) and the state
  itself otherwise.
\<close>

theorem capacity_never_exceeded:
  "RenderLine_MAX_VERTICES = 1024 \<and> RenderPoint_MAX_VERTICES = 512 \<and>
   (\<exists>s lv s' lv1 s1.
      line_run cc cs new_RenderLine = Some s \<and>
      addVertices_loop cc matrix color 0 ps (line_count s) s = Some (lv, s') \<and>
      line_count s' \<le> RenderLine_MAX_VERTICES \<and>
      line_make_room matrix (length ps) lv s' = Some (lv1, s1) \<and>
      addVertices_loop cc matrix color 0 (ps @ [p]) (line_count s) s
        = Some (lv1, line_write cc p color s1) \<and>
      line_count s1 + 2 \<le> RenderLine_MAX_VERTICES \<and>
      (if line_count s' = RenderLine_MAX_VERTICES
       then line_count s1 = 0 \<and> line_matricesCount s1 = 0 \<and>
            drawn LINES (line_gl s1) = drawn LINES (line_gl s') + RenderLine_MAX_VERTICES div 2
       else s1 = s' \<and> lv1 = lv)) \<and>
   (let t = point_run cc ds new_RenderPoint;
        t1 = (if point_count t = RenderPoint_MAX_VERTICES then point_flush t else t)
    in point_count t \<le> RenderPoint_MAX_VERTICES \<and>
       vertex cc p color t = point_write cc p color t1 \<and>
       point_count t1 + 2 \<le> RenderPoint_MAX_VERTICES \<and>
       (if point_count t = RenderPoint_MAX_VERTICES
        then point_count t1 = 0 \<and>
             drawn POINTS (point_gl t1) = drawn POINTS (point_gl t) + RenderPoint_MAX_VERTICES div 2
        else t1 = t))"
proof -
  from line_run_inv [OF line_inv_init, of cc cs] obtain s where
    s: "line_run cc cs new_RenderLine = Some s" "line_inv s"
    by blast
  then have l0: "loop_inv (line_count s) s" by (simp add: loop_inv_def line_inv_def)
  from loop_inv_run [OF l0, of 0 cc matrix color ps] obtain lv s' where
    l: "addVertices_loop cc matrix color 0 ps (line_count s) s = Some (lv, s')" "loop_inv lv s'"
    by auto
  have start: "length ps = 0 \<longrightarrow> lv = line_count s'" using l(1) by auto
  from make_room_inv [OF l(2) start, of matrix] obtain lv1 s1 where
    r: "line_make_room matrix (length ps) lv s' = Some (lv1, s1)" "loop_inv lv1 s1"
       "line_count s1 \<noteq> RenderLine_MAX_VERTICES" "line_total s1 = line_total s'"
    by blast
  have le: "line_count s' \<le> RenderLine_MAX_VERTICES" using l(2) by (simp add: loop_inv_def)
  have "even (line_count s1)" "line_count s1 \<le> 1024" "line_count s1 \<noteq> 1024"
    using r(2,3) by (simp_all add: loop_inv_def MAX_VERTICES_1024)
  then have "line_count s1 + 2 \<le> 1024" by presburger
  then have room: "line_count s1 + 2 \<le> RenderLine_MAX_VERTICES" by (simp add: MAX_VERTICES_1024)
  have snoc: "addVertices_loop cc matrix color 0 (ps @ [p]) (line_count s) s
        = Some (lv1, line_write cc p color s1)"
    using l(1) r(1) by (simp add: loop_snoc)
  have full: "if line_count s' = RenderLine_MAX_VERTICES
       then line_count s1 = 0 \<and> line_matricesCount s1 = 0 \<and>
            drawn LINES (line_gl s1) = drawn LINES (line_gl s') + RenderLine_MAX_VERTICES div 2
       else s1 = s' \<and> lv1 = lv"
  proof (cases "line_count s' = RenderLine_MAX_VERTICES")
    case False
    with r(1) show ?thesis by (simp add: line_make_room_def)
  next
    case True
    let ?t = "if length ps > 0 then line_push matrix lv s' else s'"
    have "line_inv ?t"
      using l(2) start push_inv [of lv s' matrix] by (auto simp: loop_inv_def line_inv_def)
    from flush_inv [OF this] obtain u where
      u: "line_flush ?t = Some u" "line_count u = 0" "line_matricesCount u = 0"
      by blast
    with True r(1) have "s1 = u" by (simp add: line_make_room_def)
    with u r(4) True show ?thesis by (simp add: line_total_def)
  qed
  let ?t = "point_run cc ds (new_RenderPoint :: 'a render_point)"
  let ?t1 = "if point_count ?t = RenderPoint_MAX_VERTICES then point_flush ?t else ?t"
  have pi: "point_inv ?t" by (rule point_run_inv [OF point_inv_init])
  have p1: "point_count ?t \<le> RenderPoint_MAX_VERTICES" using pi by (simp add: point_inv_def)
  have p2: "vertex cc p color ?t = point_write cc p color ?t1" by (simp add: vertex_def)
  have "even (point_count ?t)" "point_count ?t \<le> 512" using pi by (simp_all add: point_inv_def MAX_POINT_512)
  then have "point_count ?t \<noteq> 512 \<longrightarrow> point_count ?t + 2 \<le> 512" by presburger
  then have p3: "point_count ?t1 + 2 \<le> RenderPoint_MAX_VERTICES"
    by (simp add: MAX_POINT_512 point_flush_def)
  have p4: "if point_count ?t = RenderPoint_MAX_VERTICES
        then point_count ?t1 = 0 \<and>
             drawn POINTS (point_gl ?t1) = drawn POINTS (point_gl ?t) + RenderPoint_MAX_VERTICES div 2
        else ?t1 = ?t"
    by (simp add: point_flush_def drawn_append MAX_POINT_512)
  from s(1) l(1) le r(1) snoc room full p1 p2 p3 p4 MAX_VERTICES_1024 MAX_POINT_512 show ?thesis
    unfolding Let_def by blast
qed

theorem capacity_never_exceeded_witness:
  "\<exists>s lv1 s1.
      line_run 4 [AddVertices Mat4 (replicate 512 (Vec2 1 2)) (\<lambda>j. 7)]
        (new_RenderLine :: nat render_line) = Some s \<and>
      line_count s = 1024 \<and>
      line_make_room Mat4 0 (line_count s) s = Some (lv1, s1) \<and>
      addVertices_loop 4 Mat4 (\<lambda>j. 7) 0 [Vec2 5 6] (line_count s) s
        = Some (lv1, line_write 4 (Vec2 5 6) (\<lambda>j. 7) s1) \<and>
      line_count s1 = 0 \<and> line_matricesCount s1 = 0 \<and>
      drawn LINES (line_gl s1) = drawn LINES (line_gl s) + 512 \<and>
      point_count (point_run 4 [Vertex (Vec2 1 2) (\<lambda>j. 7)] (new_RenderPoint :: nat render_point)) \<le> 512"
proof -
  let ?cs = "[AddVertices Mat4 (replicate 512 (Vec2 1 2)) (\<lambda>j. 7)] :: nat line_op list"
  let ?n = "new_RenderLine :: nat render_line"
  have "line_count ?n + 2 * length (replicate 512 (Vec2 1 2 :: nat vec2)) \<le> RenderLine_MAX_VERTICES"
    by (simp add: new_RenderLine_def MAX_VERTICES_1024)
  from addVertices_no_flush [OF this, of 4 Mat4 "\<lambda>j. 7"] obtain s0 where
    s0: "addVertices 4 Mat4 (replicate 512 (Vec2 1 2)) (\<lambda>j. 7) ?n = Some s0" "line_count s0 = 1024"
    by (auto simp: new_RenderLine_def)
  then have run: "line_run 4 ?cs ?n = Some s0" by simp
  from capacity_never_exceeded [of 4 ?cs Mat4 "\<lambda>j. 7" "[]" "Vec2 5 6" "[Vertex (Vec2 1 2) (\<lambda>j. 7)]"]
  show ?thesis
    unfolding Let_def run by (auto simp: s0 MAX_VERTICES_1024 MAX_POINT_512)
qed

text \<open>
  Claim C2. Every flush clears its buffer. After \<^verbatim>\<open>RenderLine.flush\<close>, called in any
  state a sequence of \<^verbatim>\<open>addVertices\<close> and \<^verbatim>\<open>flush\<close> calls on a new object leads to,
  \<^verbatim>\<open>count\<close> and \<^verbatim>\<open>matricesCount\<close> are both 0; the same holds for the flush inside
  \<^verbatim>\<open>addVertices\<close>, which either runs in the state the call started in or right after an
  entry was recorded (\<^verbatim>\<open>matricesCount\<close> is not 0). On the new, empty object the
  early return leaves the state as it is, with both counts 0. After
  \<^verbatim>\<open>RenderPoint.flush\<close> \<^verbatim>\<open>count\<close> is 0 in every state, empty or not, and after
  \<^verbatim>\<open>RenderText.flush\<close> the text list is empty and \<^verbatim>\<open>yOffset\<close> is 0.
\<close>

theorem flush_clears_buffers:
  "(\<exists>s s'. line_run cc cs new_RenderLine = Some s \<and> line_flush s = Some s' \<and>
            line_count s' = 0 \<and> line_matricesCount s' = 0) \<and>
   (line_matricesCount t \<noteq> 0 \<longrightarrow> line_flush t = Some t' \<longrightarrow>
      line_count t' = 0 \<and> line_matricesCount t' = 0) \<and>
   line_flush new_RenderLine = Some new_RenderLine \<and>
   point_count (point_flush p) = 0 \<and>
   text_texts (text_flush x) = [] \<and> text_yOffset (text_flush x) = 0"
proof -
  from line_run_inv [OF line_inv_init, of cc cs] obtain s where
    s: "line_run cc cs new_RenderLine = Some s" "line_inv s"
    by blast
  from flush_inv [OF s(2)] s(1) have
    "\<exists>s s'. line_run cc cs new_RenderLine = Some s \<and> line_flush s = Some s' \<and>
            line_count s' = 0 \<and> line_matricesCount s' = 0"
    by blast
  moreover have "line_matricesCount t \<noteq> 0 \<longrightarrow> line_flush t = Some t' \<longrightarrow>
      line_count t' = 0 \<and> line_matricesCount t' = 0"
    by (auto simp: line_flush_def split: option.splits)
  moreover have "line_flush new_RenderLine = Some new_RenderLine"
    by (simp add: line_flush_def new_RenderLine_def)
  moreover have "point_count (point_flush p) = 0"
    by (simp add: point_flush_def)
  moreover have "text_texts (text_flush x) = [] \<and> text_yOffset (text_flush x) = 0"
    by (simp add: text_flush_def)
  ultimately show ?thesis by blast
qed

theorem flush_clears_buffers_witness:
  "(\<exists>s s'. line_run 4 [AddVertices Mat4 [Vec2 1 2, Vec2 3 4] (\<lambda>j. 7)] (new_RenderLine :: nat render_line) = Some s \<and>
       line_flush s = Some s' \<and> line_count s' = 0 \<and> line_matricesCount s' = 0) \<and>
   line_matricesCount (line_push Mat4 0 (new_RenderLine :: nat render_line)) \<noteq> 0 \<and>
   (\<exists>t'. line_flush (line_push Mat4 0 (new_RenderLine :: nat render_line)) = Some t' \<and>
       line_count t' = 0 \<and> line_matricesCount t' = 0) \<and>
   point_count (point_flush (vertex 4 (Vec2 1 2) (\<lambda>j. 7) (new_RenderPoint :: nat render_point))) = 0 \<and>
   text_texts (text_flush (print ''a'' (new_RenderText (12 :: nat)))) = [] \<and>
   text_yOffset (text_flush (print ''a'' (new_RenderText (12 :: nat)))) = 0"
proof -
  let ?t = "line_push Mat4 0 (new_RenderLine :: nat render_line)"
  have mc: "line_matricesCount ?t \<noteq> 0" by (simp add: line_push_def)
  obtain t' where t': "line_flush ?t = Some t'"
    by (simp add: line_flush_def line_push_def new_RenderLine_def)
  show ?thesis
    using flush_clears_buffers [of 4 "[AddVertices Mat4 [Vec2 1 2, Vec2 3 4] (\<lambda>j. 7)]" ?t t'
        "vertex 4 (Vec2 1 2) (\<lambda>j. 7) (new_RenderPoint :: nat render_point)"
        "print ''a'' (new_RenderText (12 :: nat))"] mc t'
    by blast
qed

text \<open>
  Claim C3. \<^verbatim>\<open>loadShader\<close> returns \<^verbatim>\<open>null\<close> exactly when the compile status is
  false; it has then written one line to the console and deleted the shader it
  created, and otherwise it returns that shader, writes nothing and deletes nothing.
  \<^verbatim>\<open>initShaderProgram\<close> returns \<^verbatim>\<open>null\<close> exactly when the link status is false,
  after writing one line to the console, and otherwise the program it created and
  linked. Nothing else reacts to an error: a shader that failed to compile is attached
  as \<^verbatim>\<open>null\<close>, and the result depends on the link status alone.
\<close>

theorem shader_errors_return_null:
  "(fst (loadShader gl type source g) = None \<longleftrightarrow> \<not> compile_status gl type source) \<and>
   loadShader gl type source g =
     (let shader = \<lparr> sh_handle = next_handle g, sh_type = type, sh_source = source \<rparr>;
          created = [CreateShader type (next_handle g), ShaderSource (next_handle g) source,
                     CompileShader (next_handle g)]
      in if compile_status gl type source
         then (Some shader,
               g\<lparr> next_handle := Suc (next_handle g),
                   shader_calls := shader_calls g @ created \<rparr>)
         else (None,
               g\<lparr> next_handle := Suc (next_handle g),
                   shader_calls := shader_calls g @ created @ [DeleteShader (next_handle g)],
                   console := console g
                     @ [''An error occurred compiling the shaders: ''
                        @ shader_info_log gl type source] \<rparr>)) \<and>
   (let (vertexShader, g1) = loadShader gl VERTEX_SHADER vsSource g;
        (fragmentShader, g2) = loadShader gl FRAGMENT_SHADER fsSource g1
    in fst (initShaderProgram gl vsSource fsSource g) = None
         \<longleftrightarrow> \<not> link_status gl vertexShader fragmentShader) \<and>
   initShaderProgram gl vsSource fsSource g =
     (let (vertexShader, g1) = loadShader gl VERTEX_SHADER vsSource g;
          (fragmentShader, g2) = loadShader gl FRAGMENT_SHADER fsSource g1;
          linked = [CreateProgram (next_handle g2), AttachShader (next_handle g2) vertexShader,
                    AttachShader (next_handle g2) fragmentShader, LinkProgram (next_handle g2)]
      in if link_status gl vertexShader fragmentShader
         then (Some (next_handle g2),
               g2\<lparr> next_handle := Suc (next_handle g2),
                    shader_calls := shader_calls g2 @ linked \<rparr>)
         else (None,
               g2\<lparr> next_handle := Suc (next_handle g2),
                    shader_calls := shader_calls g2 @ linked,
                    console := console g2
                      @ [''Unable to initialize the shader program: ''
                         @ program_info_log gl vertexShader fragmentShader] \<rparr>))"
  using loadShader_null [of gl type source g] loadShader_eq [of gl type source g]
    initShaderProgram_null [of gl vsSource g fsSource]
    initShaderProgram_eq [of gl vsSource fsSource g]
  by blast

theorem shader_errors_return_null_witness:
  "fst (loadShader example_gl VERTEX_SHADER ''bad'' example_shading) = None \<and>
   \<not> compile_status example_gl VERTEX_SHADER ''bad'' \<and>
   fst (loadShader example_gl VERTEX_SHADER ''ok'' example_shading)
     = Some \<lparr> sh_handle = 0, sh_type = VERTEX_SHADER, sh_source = ''ok'' \<rparr> \<and>
   fst (initShaderProgram example_gl ''bad'' ''ok'' example_shading) = Some 2 \<and>
   console (snd (initShaderProgram example_gl ''bad'' ''ok'' example_shading))
     = [''An error occurred compiling the shaders: syntax error''] \<and>
   fst (initShaderProgram example_gl ''ok'' ''bad'' example_shading) = None \<and>
   console (snd (initShaderProgram example_gl ''ok'' ''bad'' example_shading))
     = [''An error occurred compiling the shaders: syntax error'',
        ''Unable to initialize the shader program: missing shader'']"
proof -
  have c: "compile_status example_gl t ''ok''" "\<not> compile_status example_gl t ''bad''" for t
    by (simp_all add: example_gl_def)
  have l: "link_status example_gl v f \<longleftrightarrow> f \<noteq> None" for v f
    by (simp add: example_gl_def)
  have i: "shader_info_log example_gl t s = ''syntax error''"
    "program_info_log example_gl v f = ''missing shader''" for t s v f
    by (simp_all add: example_gl_def)
  note A = shader_errors_return_null [of example_gl VERTEX_SHADER "''bad''" example_shading "''bad''" "''ok''"]
  note B = shader_errors_return_null [of example_gl VERTEX_SHADER "''ok''" example_shading "''ok''" "''bad''"]
  from A have a1: "fst (loadShader example_gl VERTEX_SHADER ''bad'' example_shading) = None"
    using c by blast
  from B have b1: "fst (loadShader example_gl VERTEX_SHADER ''ok'' example_shading)
     = Some \<lparr> sh_handle = 0, sh_type = VERTEX_SHADER, sh_source = ''ok'' \<rparr>"
    using c by (simp add: Let_def example_shading_def)
  have ld: "loadShader example_gl t ''bad'' g = (None,
               g\<lparr> next_handle := Suc (next_handle g),
                   shader_calls := shader_calls g @ [CreateShader t (next_handle g),
                      ShaderSource (next_handle g) ''bad'', CompileShader (next_handle g),
                      DeleteShader (next_handle g)],
                   console := console g @ [''An error occurred compiling the shaders: syntax error''] \<rparr>)"
    "loadShader example_gl t ''ok'' g = (Some \<lparr> sh_handle = next_handle g, sh_type = t, sh_source = ''ok'' \<rparr>,
               g\<lparr> next_handle := Suc (next_handle g),
                   shader_calls := shader_calls g @ [CreateShader t (next_handle g),
                      ShaderSource (next_handle g) ''ok'', CompileShader (next_handle g)] \<rparr>)" for t g
    using c i by (simp_all add: loadShader_def Let_def)
  from A have a2: "fst (initShaderProgram example_gl ''bad'' ''ok'' example_shading) = Some 2 \<and>
   console (snd (initShaderProgram example_gl ''bad'' ''ok'' example_shading))
     = [''An error occurred compiling the shaders: syntax error'']"
    by (simp add: ld l Let_def example_shading_def)
  from B have b2: "fst (initShaderProgram example_gl ''ok'' ''bad'' example_shading) = None \<and>
   console (snd (initShaderProgram example_gl ''ok'' ''bad'' example_shading))
     = [''An error occurred compiling the shaders: syntax error'',
        ''Unable to initialize the shader program: missing shader'']"
    by (simp add: ld l i Let_def example_shading_def)
  from a1 b1 a2 b2 c show ?thesis by blast
qed

text \<open>
  Claim C4. While \<^verbatim>\<open>isPause\<close> is true and no step is pending, \<^verbatim>\<open>Test.step\<close>
  changes nothing: no \<^verbatim>\<open>world.step\<close>. With a step pending, \<^verbatim>\<open>Test.step\<close> calls
  \<^verbatim>\<open>world.step\<close> exactly once and clears the flag, so the next \<^verbatim>\<open>Test.step\<close> of a
  paused test does nothing. After any sequence of calls on a new \<^verbatim>\<open>Test\<close> the flag
  \<^verbatim>\<open>shouldMakeStep\<close> says exactly whether \<^verbatim>\<open>makeStep()\<close> has been called since the
  last world step. While the test stays paused, the world steps made are at most the
  \<^verbatim>\<open>makeStep()\<close> calls, plus one if a step was pending at the start.
\<close>

theorem paused_single_step:
  "(isPause t \<and> \<not> shouldMakeStep t \<longrightarrow> step time t = t) \<and>
   (shouldMakeStep t \<longrightarrow>
      test_calls (step time t) = test_calls t @ [WorldStep time] \<and>
      world_steps (step time t) = Suc (world_steps t) \<and>
      \<not> shouldMakeStep (step time t) \<and>
      step time' (step time t) = (if isPause t then step time t
                                   else (test_call (WorldStep time') (step time t)))) \<and>
   shouldMakeStep (test_run h cs (new_Test average listener))
     = makeStep_since_step h cs (new_Test average listener) False \<and>
   (isPause t \<and> list_all keeps_pause cs \<longrightarrow>
      isPause (test_run h cs t) \<and>
      world_steps (test_run h cs t)
        \<le> world_steps t + (if shouldMakeStep t then 1 else 0) + length (filter is_MakeStep cs)) \<and>
   test (handleKeyDown acts ''o'' s) = makeStep (pause (Some True) (test s))"
proof -
  have e: "test (handleKeyDown acts ''o'' s) = makeStep (pause (Some True) (test s))"
    by (simp add: handleKeyDown_def call_test_def on_test_def sandbox_call_def)
  have a: "isPause t \<and> \<not> shouldMakeStep t \<longrightarrow> step time t = t"
    by (simp add: step_paused)
  have b: "shouldMakeStep t \<longrightarrow>
      test_calls (step time t) = test_calls t @ [WorldStep time] \<and>
      world_steps (step time t) = Suc (world_steps t) \<and>
      \<not> shouldMakeStep (step time t) \<and>
      step time' (step time t) = (if isPause t then step time t
                                   else (test_call (WorldStep time') (step time t)))"
  proof
    assume s: "shouldMakeStep t"
    then have t: "test_calls (step time t) = test_calls t @ [WorldStep time]"
      "world_steps (step time t) = Suc (world_steps t)"
      "\<not> shouldMakeStep (step time t)" "isPause (step time t) = isPause t"
      using step_taken [of t time] by blast+
    have "step time' (step time t) = (if isPause t then step time t
                                   else (test_call (WorldStep time') (step time t)))"
      using t(3,4) by (simp add: step_def [of time' "step time t"] test_call_def)
    with t show "test_calls (step time t) = test_calls t @ [WorldStep time] \<and>
      world_steps (step time t) = Suc (world_steps t) \<and>
      \<not> shouldMakeStep (step time t) \<and>
      step time' (step time t) = (if isPause t then step time t
                                   else (test_call (WorldStep time') (step time t)))"
      by simp
  qed
  have c: "shouldMakeStep (test_run h cs (new_Test average listener))
     = makeStep_since_step h cs (new_Test average listener) False"
    using flag_history [of h cs "new_Test average listener"]
    by (simp add: new_Test_def clearContacts_def)
  have d: "isPause t \<and> list_all keeps_pause cs \<longrightarrow>
      isPause (test_run h cs t) \<and>
      world_steps (test_run h cs t)
        \<le> world_steps t + (if shouldMakeStep t then 1 else 0) + length (filter is_MakeStep cs)"
    using run_paused [of t cs h] by auto
  from a b c d e show ?thesis by blast
qed

theorem paused_single_step_witness:
  "isPause (test_run example_helpers [Pause (Some True)] example_test) \<and>
   \<not> shouldMakeStep (test_run example_helpers [Pause (Some True)] example_test) \<and>
   step 16 (test_run example_helpers [Pause (Some True)] example_test)
     = test_run example_helpers [Pause (Some True)] example_test \<and>
   shouldMakeStep (test_run example_helpers [Pause (Some True), MakeStep] example_test) \<and>
   world_steps (step 16 (test_run example_helpers [Pause (Some True), MakeStep] example_test)) = 1 \<and>
   list_all keeps_pause
     ([MakeStep, MakeStep, Step 16, Step 16, Step 16] :: (int, nat) test_op list) \<and>
   world_steps (test_run example_helpers [MakeStep, MakeStep, Step 16, Step 16, Step 16]
      (test_run example_helpers [Pause (Some True)] example_test)) \<le> 2 \<and>
   isPause (test (handleKeyDown None ''o'' (new_Sandbox None () 800 600 :: (int, nat, unit) sandbox))) \<and>
   shouldMakeStep (test (handleKeyDown None ''o'' (new_Sandbox None () 800 600 :: (int, nat, unit) sandbox)))"
proof -
  let ?t = "test_run example_helpers [Pause (Some True)] example_test"
  let ?u = "test_run example_helpers [Pause (Some True), MakeStep] example_test"
  let ?cs = "[MakeStep, MakeStep, Step 16, Step (16::int), Step 16] :: (int, nat) test_op list"
  let ?n = "new_Sandbox None () 800 600 :: (int, nat, unit) sandbox"
  have t: "isPause ?t" "\<not> shouldMakeStep ?t" "world_steps ?t = 0"
    by (simp_all add: test_run_def example_test_def new_Test_def clearContacts_def pause_def
        world_steps_def)
  have u: "shouldMakeStep ?u" "world_steps ?u = 0"
    by (simp_all add: test_run_def example_test_def new_Test_def clearContacts_def pause_def
        makeStep_def world_steps_def)
  have k: "list_all keeps_pause ?cs" by simp
  note A = paused_single_step [of ?t 16 16 example_helpers ?cs "()" False
      "None :: (int, nat, unit) actions option" ?n]
  note B = paused_single_step [of ?u 16 16 example_helpers "[]" "()" False
      "None :: (int, nat, unit) actions option" ?n]
  from A t have a1: "step 16 ?t = ?t" by blast
  from A t k have "world_steps (test_run example_helpers ?cs ?t)
      \<le> world_steps ?t + (if shouldMakeStep ?t then 1 else 0) + length (filter is_MakeStep ?cs)"
    by blast
  with t have a2: "world_steps (test_run example_helpers ?cs ?t) \<le> 2" by simp
  from B u have "world_steps (step 16 ?u) = Suc (world_steps ?u)" by blast
  with u have b1: "world_steps (step 16 ?u) = 1" by simp
  from A have "test (handleKeyDown None ''o'' ?n) = makeStep (pause (Some True) (test ?n))"
    by blast
  then have o: "isPause (test (handleKeyDown None ''o'' ?n))"
    "shouldMakeStep (test (handleKeyDown None ''o'' ?n))"
    by (simp_all add: makeStep_def pause_def)
  from t u k a1 a2 b1 o show ?thesis by blast
qed


text \<open>
  Claim C6. \<^verbatim>\<open>stop()\<close> sets \<^verbatim>\<open>running\<close> to false and nothing else. While
  \<^verbatim>\<open>running\<close> is false the \<^verbatim>\<open>render\<close> callback returns the state as it is: no
  world step, no drawing, no animation frame requested. After \<^verbatim>\<open>stop()\<close>, whatever
  calls other than \<^verbatim>\<open>run()\<close> follow (the user's actions not calling \<^verbatim>\<open>run()\<close>
  either), \<^verbatim>\<open>running\<close> is still false and \<^verbatim>\<open>render\<close> still does nothing; only
  \<^verbatim>\<open>run()\<close> sets \<^verbatim>\<open>running\<close> to true, and it requests a frame.
\<close>

theorem stop_ends_loop:
  "stop s = s\<lparr> running := False \<rparr> \<and>
   (\<not> running s \<longrightarrow> render h acts now s = s) \<and>
   (actions_stay_stopped acts \<longrightarrow> list_all (\<lambda>c. \<not> is_Run c) cs \<longrightarrow>
      \<not> running (sandbox_run h acts cs (stop s)) \<and>
      render h acts now (sandbox_run h acts cs (stop s)) = sandbox_run h acts cs (stop s)) \<and>
   run s = s\<lparr> running := True, sandbox_calls := sandbox_calls s @ [RequestAnimationFrame] \<rparr>"
proof -
  have a: "stop s = s\<lparr> running := False \<rparr>" by (simp add: stop_def)
  have b: "\<not> running s \<longrightarrow> render h acts now s = s" by (simp add: render_stopped)
  have c: "actions_stay_stopped acts \<longrightarrow> list_all (\<lambda>c. \<not> is_Run c) cs \<longrightarrow>
      \<not> running (sandbox_run h acts cs (stop s)) \<and>
      render h acts now (sandbox_run h acts cs (stop s)) = sandbox_run h acts cs (stop s)"
  proof (intro impI)
    assume q: "actions_stay_stopped acts" and n: "list_all (\<lambda>c. \<not> is_Run c) cs"
    have "\<not> running (stop s)" by (simp add: stop_def)
    from run_stopped [OF this n q] have "\<not> running (sandbox_run h acts cs (stop s))" .
    then show "\<not> running (sandbox_run h acts cs (stop s)) \<and>
      render h acts now (sandbox_run h acts cs (stop s)) = sandbox_run h acts cs (stop s)"
      by (simp add: render_stopped)
  qed
  have d: "run s = s\<lparr> running := True, sandbox_calls := sandbox_calls s @ [RequestAnimationFrame] \<rparr>"
    by (simp add: run_def sandbox_call_def)
  from a b c d show ?thesis by blast
qed

theorem stop_ends_loop_witness:
  "actions_stay_stopped (None :: (int, nat, unit) actions option) \<and>
   list_all (\<lambda>c. \<not> is_Run c) [Zoom 2, KeyDown ''p'', Render (16::int), Reset] \<and>
   \<not> running (sandbox_run example_helpers None [Zoom 2, KeyDown ''p'', Render 16, Reset]
        (stop (run (new_Sandbox None () 800 600 :: (int, nat, unit) sandbox)))) \<and>
   render example_helpers None 32
       (sandbox_run example_helpers None [Zoom 2, KeyDown ''p'', Render 16, Reset]
          (stop (run (new_Sandbox None () 800 600 :: (int, nat, unit) sandbox))))
     = sandbox_run example_helpers None [Zoom 2, KeyDown ''p'', Render 16, Reset]
          (stop (run (new_Sandbox None () 800 600))) \<and>
   running (run (stop (run (new_Sandbox None () 800 600 :: (int, nat, unit) sandbox))))"
proof -
  let ?s = "run (new_Sandbox None () 800 600 :: (int, nat, unit) sandbox)"
  let ?cs = "[Zoom 2, KeyDown ''p'', Render (16::int), Reset]"
  have q: "actions_stay_stopped (None :: (int, nat, unit) actions option)"
    by (simp add: actions_stay_stopped_def stays_stopped_def call_action_def call_keyDown_def)
  have n: "list_all (\<lambda>c. \<not> is_Run c) ?cs" by simp
  from stop_ends_loop [of ?s example_helpers None 32 ?cs] q n
  have "\<not> running (sandbox_run example_helpers None ?cs (stop ?s))"
    "render example_helpers None 32 (sandbox_run example_helpers None ?cs (stop ?s))
       = sandbox_run example_helpers None ?cs (stop ?s)"
    by blast+
  moreover from stop_ends_loop [of "stop ?s" example_helpers None 32 ?cs]
  have "running (run (stop ?s))" by simp
  ultimately show ?thesis using q n by blast
qed

text \<open>
  Claim C7. The recorded entries partition the buffered vertices, a vertex being one
  (x, y) pair of \<^verbatim>\<open>vertices\<close>. After any sequence of \<^verbatim>\<open>addVertices\<close> and
  \<^verbatim>\<open>flush\<close> calls on a new \<^verbatim>\<open>RenderLine\<close> (so also for the calls since the last
  flush), every element of \<^verbatim>\<open>matrices\<close> below \<^verbatim>\<open>matricesCount\<close> is defined; each
  entry's range \<open>[offset, offset + count)\<close> lies within the \<^verbatim>\<open>count / 2\<close> buffered
  vertices; each entry starts where the one before it ends, the first at 0; and the
  counts add up to \<^verbatim>\<open>count / 2\<close>. No vertex is lost or drawn twice when a call is
  split by the flush inside \<^verbatim>\<open>addVertices\<close>: the vertices drawn so far and the
  vertices in the buffer are together the vertices handed over.
\<close>

theorem entries_partition_buffer:
  "\<exists>s es.
      line_run cc cs new_RenderLine = Some s \<and>
      line_entries s = map Some es \<and>
      even (line_count s) \<and>
      (\<forall>i<length es. e_offset (es ! i) + e_count (es ! i) \<le> line_count s div 2) \<and>
      (\<forall>i. Suc i < length es \<longrightarrow>
             e_offset (es ! Suc i) = e_offset (es ! i) + e_count (es ! i)) \<and>
      (es \<noteq> [] \<longrightarrow> e_offset (es ! 0) = 0) \<and>
      sum_list (map e_count es) = line_count s div 2 \<and>
      drawn LINES (line_gl s) + line_count s div 2 = line_submitted cs"
proof -
  from line_run_inv [OF line_inv_init, of cc cs] obtain s where
    s: "line_run cc cs new_RenderLine = Some s" "line_inv s"
       "line_total s = line_total (new_RenderLine :: 'a render_line) + line_submitted cs"
    by blast
  from s(2) have t: "tiles 0 (line_entries s) = Some (line_count s div 2)" and ev: "even (line_count s)"
    by (simp_all add: line_inv_def)
  from tiles_Some [OF t] obtain es where
    es: "line_entries s = map Some es" "sum_list (map e_count es) = line_count s div 2"
        "\<forall>i<length es. e_offset (es ! i) = sum_list (map e_count (take i es))"
    by auto
  have within: "\<forall>i<length es. e_offset (es ! i) + e_count (es ! i) \<le> line_count s div 2"
  proof (intro allI impI)
    fix i assume i: "i < length es"
    then have "e_offset (es ! i) + e_count (es ! i) = sum_list (map e_count (take (Suc i) es))"
      using es(3) by (simp add: sum_take_Suc)
    also have "\<dots> \<le> sum_list (map e_count es)" by (rule sum_take_le)
    finally show "e_offset (es ! i) + e_count (es ! i) \<le> line_count s div 2" using es(2) by simp
  qed
  have adjacent: "\<forall>i. Suc i < length es \<longrightarrow>
             e_offset (es ! Suc i) = e_offset (es ! i) + e_count (es ! i)"
    using es(3) by (simp add: sum_take_Suc)
  have first: "es \<noteq> [] \<longrightarrow> e_offset (es ! 0) = 0" using es(3) by auto
  have total: "drawn LINES (line_gl s) + line_count s div 2 = line_submitted cs"
    using s(3) by (simp add: line_total_def new_RenderLine_def)
  from s(1) es(1) ev within adjacent first es(2) total show ?thesis by blast
qed

theorem entries_partition_buffer_witness:
  "(\<exists>s es.
      line_run 4 [AddVertices Mat4 (replicate 513 (Vec2 1 2)) (\<lambda>j. 7)]
        (new_RenderLine :: nat render_line) = Some s \<and>
      line_entries s = map Some es \<and>
      es = [\<lparr> e_matrix = Mat4, e_offset = 0, e_count = 1 \<rparr>] \<and>
      line_count s = 2 \<and>
      sum_list (map e_count es) = line_count s div 2 \<and>
      e_offset (es ! 0) + e_count (es ! 0) \<le> line_count s div 2 \<and>
      drawn LINES (line_gl s) = 512 \<and>
      drawn LINES (line_gl s) + line_count s div 2 = 513) \<and>
   (\<exists>s es.
      line_run 4 [AddVertices Mat4 [Vec2 1 2] (\<lambda>j. 7),
                  AddVertices (Rotate Mat4 1) [Vec2 3 4, Vec2 5 6] (\<lambda>j. 7)]
        (new_RenderLine :: nat render_line) = Some s \<and>
      line_entries s = map Some es \<and>
      es = [\<lparr> e_matrix = Mat4, e_offset = 0, e_count = 1 \<rparr>,
            \<lparr> e_matrix = Rotate Mat4 1, e_offset = 1, e_count = 2 \<rparr>] \<and>
      Suc 0 < length es \<and>
      e_offset (es ! Suc 0) = e_offset (es ! 0) + e_count (es ! 0) \<and>
      sum_list (map e_count es) = line_count s div 2)"
proof -
  let ?v = "Vec2 1 2 :: nat vec2"
  let ?c = "\<lambda>j::nat. 7::nat"
  let ?n = "new_RenderLine :: nat render_line"
  let ?cs = "[AddVertices Mat4 (replicate 513 ?v) ?c]"
  have "line_count ?n + 2 * length (replicate 512 ?v) \<le> RenderLine_MAX_VERTICES"
    by (simp add: new_RenderLine_def MAX_VERTICES_1024)
  from loop_no_flush [OF this, of 4 Mat4 ?c 0 0] obtain s' where
    s': "addVertices_loop 4 Mat4 ?c 0 (replicate 512 ?v) 0 ?n = Some (0, s')"
        "line_count s' = 1024" "line_matrices s' = Map.empty" "line_matricesCount s' = 0"
        "line_gl s' = []"
    by (auto simp: new_RenderLine_def)
  have "replicate (Suc 512) ?v = replicate 512 ?v @ [?v]"
    by (simp only: replicate_Suc replicate_append_same)
  then have split: "replicate 513 ?v = replicate 512 ?v @ [?v]"
    by simp
  define s1 where "s1 = (line_push Mat4 0 s')
      \<lparr> line_gl := [UseProgram True, BufferData aVertex (line_vertices s'),
                     BufferData aColor (line_colors s'), UniformProjectionMatrix,
                     UniformModelViewMatrix Mat4, DrawElements LINES 512 0, UseProgram False],
        line_count := 0, line_matricesCount := 0 \<rparr>"
  have room: "line_make_room Mat4 512 0 s' = Some (0, s1)"
    using s'(2-5) by (simp add: line_make_room_def MAX_VERTICES_1024 line_flush_def line_push_def s1_def)
  have loop: "addVertices_loop 4 Mat4 ?c 0 (replicate 513 ?v) 0 ?n
      = Some (0, line_write 4 ?v ?c s1)"
    unfolding split using s'(1) room by (simp add: loop_snoc)
  define s2 where "s2 = line_push Mat4 0 (line_write 4 ?v ?c s1)"
  have run: "line_run 4 ?cs ?n = Some s2"
    using loop by (simp add: addVertices_def new_RenderLine_def s2_def)
  have vals: "line_count s2 = 2" "line_entries s2 = [Some \<lparr> e_matrix = Mat4, e_offset = 0, e_count = 1 \<rparr>]"
    "drawn LINES (line_gl s2) = 512"
    by (simp_all add: s2_def s1_def line_push_def line_write_def line_entries_def)
  from entries_partition_buffer [of 4 ?cs] run obtain es where
    es: "line_entries s2 = map Some es" "sum_list (map e_count es) = line_count s2 div 2"
        "drawn LINES (line_gl s2) + line_count s2 div 2 = line_submitted ?cs"
    by auto
  from es(1) vals(2) have "es = [\<lparr> e_matrix = Mat4, e_offset = 0, e_count = 1 \<rparr>]"
    by (cases es) auto
  with run es vals have first: "\<exists>s es.
      line_run 4 ?cs ?n = Some s \<and>
      line_entries s = map Some es \<and>
      es = [\<lparr> e_matrix = Mat4, e_offset = 0, e_count = 1 \<rparr>] \<and>
      line_count s = 2 \<and>
      sum_list (map e_count es) = line_count s div 2 \<and>
      e_offset (es ! 0) + e_count (es ! 0) \<le> line_count s div 2 \<and>
      drawn LINES (line_gl s) = 512 \<and>
      drawn LINES (line_gl s) + line_count s div 2 = 513"
    by auto
  let ?ds = "[AddVertices Mat4 [Vec2 1 2] ?c, AddVertices (Rotate Mat4 1) [Vec2 3 4, Vec2 5 6] ?c]"
  have "line_count ?n + 2 * length [Vec2 1 2 :: nat vec2] \<le> RenderLine_MAX_VERTICES"
    by (simp add: new_RenderLine_def MAX_VERTICES_1024)
  from addVertices_no_flush [OF this, of 4 Mat4 ?c] obtain t1 where
    t1: "addVertices 4 Mat4 [Vec2 1 2] ?c ?n = Some t1" "line_count t1 = 2"
        "line_entries t1 = [Some \<lparr> e_matrix = Mat4, e_offset = 0, e_count = 1 \<rparr>]"
    by (auto simp: new_RenderLine_def line_entries_def)
  have "line_count t1 + 2 * length [Vec2 3 4, Vec2 5 6 :: nat vec2] \<le> RenderLine_MAX_VERTICES"
    using t1(2) by (simp add: MAX_VERTICES_1024)
  from addVertices_no_flush [OF this, of 4 "Rotate Mat4 1" ?c] obtain t2 where
    t2: "addVertices 4 (Rotate Mat4 1) [Vec2 3 4, Vec2 5 6] ?c t1 = Some t2"
        "line_entries t2 = [Some \<lparr> e_matrix = Mat4, e_offset = 0, e_count = 1 \<rparr>,
                            Some \<lparr> e_matrix = Rotate Mat4 1, e_offset = 1, e_count = 2 \<rparr>]"
    using t1(2,3) by auto
  have run2: "line_run 4 ?ds ?n = Some t2" using t1(1) t2(1) by simp
  from entries_partition_buffer [of 4 ?ds] run2 obtain fs where
    fs: "line_entries t2 = map Some fs" "sum_list (map e_count fs) = line_count t2 div 2"
        "\<forall>i. Suc i < length fs \<longrightarrow> e_offset (fs ! Suc i) = e_offset (fs ! i) + e_count (fs ! i)"
    by auto
  from fs(1) t2(2) have fs_eq: "fs = [\<lparr> e_matrix = Mat4, e_offset = 0, e_count = 1 \<rparr>,
            \<lparr> e_matrix = Rotate Mat4 1, e_offset = 1, e_count = 2 \<rparr>]"
    by (auto simp: map_eq_Cons_conv)
  then have len: "Suc 0 < length fs" by simp
  with fs(3) have adj: "e_offset (fs ! Suc 0) = e_offset (fs ! 0) + e_count (fs ! 0)" by blast
  from run2 fs(1,2) fs_eq len adj have second: "\<exists>s es.
      line_run 4 ?ds ?n = Some s \<and>
      line_entries s = map Some es \<and>
      es = [\<lparr> e_matrix = Mat4, e_offset = 0, e_count = 1 \<rparr>,
            \<lparr> e_matrix = Rotate Mat4 1, e_offset = 1, e_count = 2 \<rparr>] \<and>
      Suc 0 < length es \<and>
      e_offset (es ! Suc 0) = e_offset (es ! 0) + e_count (es ! 0) \<and>
      sum_list (map e_count es) = line_count s div 2"
    by blast
  from first second show ?thesis by blast
qed

text \<open>
  Claim C8. After any sequence of calls on a new \<^verbatim>\<open>Test\<close>, no two contacts of the
  list have the same pair (\<^verbatim>\<open>bodyA\<close>, \<^verbatim>\<open>bodyB\<close>): \<^verbatim>\<open>beginContact\<close> appends the
  contact only if no contact of the list has both bodies equal to its own.
  \<^verbatim>\<open>Test.draw\<close> hands the point of every contact of the list to
  \<^verbatim>\<open>DebugDraw.drawPoint\<close> (after the flush of the frame) and leaves the list empty, so
  no contact is in the list after the frame it was reported in.
\<close>

theorem contacts_unique_per_frame:
  "distinct (map pair_of (contacts (test_run h cs (new_Test average listener)))) \<and>
   contacts (beginContact c t) =
     (if \<exists>d \<in> set (contacts t). bodyA d = bodyA c \<and> bodyB d = bodyB c
      then contacts t else contacts t @ [c]) \<and>
   contacts (draw h time t) = [] \<and>
   test_calls (draw h time t) =
     test_calls (drawHelp h time (test_call WorldDrawDebugData t))
       @ DebugDrawFlush # map (\<lambda>c. DebugDrawPoint (contact_point c)) (contacts t) \<and>
   contacts (test_run h (cs @ [Draw time]) t) = []"
proof -
  have a: "distinct (map pair_of (contacts (test_run h cs (new_Test average listener))))"
    by (rule distinct_run) (simp add: new_Test_def clearContacts_def)
  have b: "contacts (beginContact c t) =
     (if \<exists>d \<in> set (contacts t). bodyA d = bodyA c \<and> bodyB d = bodyB c
      then contacts t else contacts t @ [c])"
    unfolding beginContact_contacts pair_in_iff by (rule refl)
  have c: "contacts (test_run h (cs @ [Draw time]) t) = []"
    by (simp add: test_run_def draw_contacts)
  from a b c draw_contacts [of h time t] draw_calls [of h time t] show ?thesis by blast
qed

theorem contacts_unique_per_frame_witness:
  "contacts (test_run example_helpers
      [BeginContact (example_contact 1 2 0), BeginContact (example_contact 1 2 5),
       BeginContact (example_contact 2 1 7)] example_test)
     = [example_contact 1 2 0, example_contact 2 1 7] \<and>
   distinct (map pair_of (contacts (test_run example_helpers
      [BeginContact (example_contact 1 2 0), BeginContact (example_contact 1 2 5),
       BeginContact (example_contact 2 1 7)] example_test))) \<and>
   contacts (test_run example_helpers
      [BeginContact (example_contact 1 2 0), BeginContact (example_contact 1 2 5),
       BeginContact (example_contact 2 1 7), Draw 16] example_test) = []"
proof -
  let ?cs = "[BeginContact (example_contact 1 2 0), BeginContact (example_contact 1 2 5),
       BeginContact (example_contact 2 1 7)]"
  note T = contacts_unique_per_frame [where h = example_helpers and cs = ?cs and average = "()"
      and listener = False and t = example_test and time = 16]
  have "contacts (test_run example_helpers ?cs example_test)
     = [example_contact 1 2 0, example_contact 2 1 7]"
    by (simp add: test_run_def example_test_def new_Test_def clearContacts_def beginContact_def
        hasContact_def Let_def example_contact_def)
  moreover from T have "distinct (map pair_of (contacts (test_run example_helpers ?cs example_test)))"
    by (simp add: example_test_def)
  moreover from T have "contacts (test_run example_helpers (?cs @ [Draw 16]) example_test) = []"
    by blast
  ultimately show ?thesis by simp
qed





end
